theory Spec2Isabelle
  imports Complex_Main "HOL-Library.Sublist" "HOL-Library.Log_Nat"
begin

section \<open>Python values and text\<close>

text \<open>
  The orchestration core (\<^verbatim>\<open>backend/ai_orchestrator.py\<close>) handles untyped data: a
  conversation turn is a \<^verbatim>\<open>Dict[str, Any]\<close>, and the ranking is whatever
  \<^verbatim>\<open>json.loads\<close> found under the key \<^verbatim>\<open>results\<close>. Such data is a \<open>pyval\<close>.

  \<^item> A Python \<^verbatim>\<open>str\<close> is a HOL \<open>string\<close> holding its UTF-8 encoding; every character the
    code itself tests or emits is ASCII.
  \<^item> A Python \<^verbatim>\<open>dict\<close> with \<^verbatim>\<open>str\<close> keys is an association list in insertion order.
  \<^item> Floating-point numbers are not interpreted. A float is a value of a type parameter
    \<open>'f\<close>; how a literal denotes one, how one prints and whether one is zero are fields of
    a \<open>pyruntime\<close>, as is \<^verbatim>\<open>repr\<close> on a \<^verbatim>\<open>str\<close> (its choice of quotes and escapes).
    Every theorem below holds for every such runtime.
  \<^item> The interpreter's resource limits (recursion depth, the digit limit of \<^verbatim>\<open>int\<close>
    conversions, memory) are not modelled.
\<close>

datatype 'f pyval =
    PNone
  | PBool bool
  | PInt int
  | PFloat 'f
  | PStr string
  | PList "'f pyval list"
  | PDict "(string \<times> 'f pyval) list"

datatype py_exn =
    TypeError
  | AttributeError
  | JSONDecodeError
  | BackendUnavailable string

record 'f pyruntime =
  float_of_literal :: "string \<Rightarrow> 'f"
  float_repr :: "'f \<Rightarrow> string"
  float_nonzero :: "'f \<Rightarrow> bool"
  str_repr :: "string \<Rightarrow> string"

subsection \<open>Decimal numerals\<close>

definition digit_char :: "nat \<Rightarrow> char" where
  "digit_char d = ''0123456789'' ! d"

fun show_nat :: "nat \<Rightarrow> string" where
  "show_nat n = (if n < 10 then [digit_char n] else show_nat (n div 10) @ [digit_char (n mod 10)])"

declare show_nat.simps [simp del]

definition show_int :: "int \<Rightarrow> string" where
  "show_int i = (if i < 0 then CHR ''-'' # show_nat (nat (- i)) else show_nat (nat i))"

subsection \<open>\<^verbatim>\<open>str()\<close>, \<^verbatim>\<open>repr()\<close>, truth values and iteration\<close>

fun py_join :: "string \<Rightarrow> string list \<Rightarrow> string" where
  "py_join sep [] = []"
| "py_join sep [x] = x"
| "py_join sep (x # y # ys) = x @ sep @ py_join sep (y # ys)"

fun py_repr :: "'f pyruntime \<Rightarrow> 'f pyval \<Rightarrow> string" where
  "py_repr R PNone = ''None''"
| "py_repr R (PBool b) = (if b then ''True'' else ''False'')"
| "py_repr R (PInt i) = show_int i"
| "py_repr R (PFloat x) = float_repr R x"
| "py_repr R (PStr s) = str_repr R s"
| "py_repr R (PList xs) = ''['' @ py_join '', '' (map (py_repr R) xs) @ '']''"
| "py_repr R (PDict kvs) =
     ''{'' @ py_join '', '' (map (\<lambda>kv. str_repr R (fst kv) @ '': '' @ py_repr R (snd kv)) kvs) @ ''}''"

text \<open>What an f-string substitutes for \<^verbatim>\<open>{v}\<close>: \<^verbatim>\<open>str(v)\<close>, which is the text itself for a
  \<^verbatim>\<open>str\<close> and \<^verbatim>\<open>repr(v)\<close> for the other values.\<close>

fun py_str :: "'f pyruntime \<Rightarrow> 'f pyval \<Rightarrow> string" where
  "py_str R (PStr s) = s"
| "py_str R v = py_repr R v"

fun py_truthy :: "'f pyruntime \<Rightarrow> 'f pyval \<Rightarrow> bool" where
  "py_truthy R PNone = False"
| "py_truthy R (PBool b) = b"
| "py_truthy R (PInt i) = (i \<noteq> 0)"
| "py_truthy R (PFloat x) = float_nonzero R x"
| "py_truthy R (PStr s) = (s \<noteq> [])"
| "py_truthy R (PList xs) = (xs \<noteq> [])"
| "py_truthy R (PDict kvs) = (kvs \<noteq> [])"

text \<open>Iterating a \<^verbatim>\<open>str\<close> yields its characters, one code point each: the UTF-8 text is cut
  at the lead bytes.\<close>

definition utf8_width :: "char \<Rightarrow> nat" where
  "utf8_width c =
     (let b = (of_char c :: nat)
      in if b < 0xC0 then 1 else if b < 0xE0 then 2 else if b < 0xF0 then 3 else 4)"

fun utf8_chars :: "string \<Rightarrow> string list" where
  "utf8_chars [] = []"
| "utf8_chars (c # s) =
     (c # take (utf8_width c - 1) s) # utf8_chars (drop (utf8_width c - 1) s)"

text \<open>\<^verbatim>\<open>enumerate(v)\<close> raises \<^verbatim>\<open>TypeError\<close> on a value that is not iterable.\<close>

fun py_iter :: "'f pyval \<Rightarrow> py_exn + 'f pyval list" where
  "py_iter (PList xs) = Inr xs"
| "py_iter (PStr s) = Inr (map PStr (utf8_chars s))"
| "py_iter (PDict kvs) = Inr (map (\<lambda>kv. PStr (fst kv)) kvs)"
| "py_iter v = Inl TypeError"

text \<open>\<^verbatim>\<open>d.get(k, default)\<close>.\<close>

definition dict_get :: "(string \<times> 'f pyval) list \<Rightarrow> string \<Rightarrow> 'f pyval \<Rightarrow> 'f pyval" where
  "dict_get d k dflt = (case map_of d k of None \<Rightarrow> dflt | Some v \<Rightarrow> v)"

subsection \<open>\<^verbatim>\<open>str.strip\<close>, \<^verbatim>\<open>str.find\<close>, \<^verbatim>\<open>str.rfind\<close> and slices\<close>

text \<open>The characters \<^verbatim>\<open>str.strip()\<close> removes are those of \<^verbatim>\<open>str.isspace\<close>: U+0009 to
  U+000D, U+001C to U+0020, U+0085, U+00A0, U+1680, U+2000 to U+200A, U+2028, U+2029,
  U+202F, U+205F and U+3000, here in UTF-8.\<close>

definition py_whitespace :: "string list" where
  "py_whitespace =
     [[CHR 0x09], [CHR 0x0A], [CHR 0x0B], [CHR 0x0C], [CHR 0x0D],
      [CHR 0x1C], [CHR 0x1D], [CHR 0x1E], [CHR 0x1F], [CHR 0x20],
      [CHR 0xC2, CHR 0x85], [CHR 0xC2, CHR 0xA0], [CHR 0xE1, CHR 0x9A, CHR 0x80],
      [CHR 0xE2, CHR 0x80, CHR 0x80], [CHR 0xE2, CHR 0x80, CHR 0x81],
      [CHR 0xE2, CHR 0x80, CHR 0x82], [CHR 0xE2, CHR 0x80, CHR 0x83],
      [CHR 0xE2, CHR 0x80, CHR 0x84], [CHR 0xE2, CHR 0x80, CHR 0x85],
      [CHR 0xE2, CHR 0x80, CHR 0x86], [CHR 0xE2, CHR 0x80, CHR 0x87],
      [CHR 0xE2, CHR 0x80, CHR 0x88], [CHR 0xE2, CHR 0x80, CHR 0x89],
      [CHR 0xE2, CHR 0x80, CHR 0x8A], [CHR 0xE2, CHR 0x80, CHR 0xA8],
      [CHR 0xE2, CHR 0x80, CHR 0xA9], [CHR 0xE2, CHR 0x80, CHR 0xAF],
      [CHR 0xE2, CHR 0x81, CHR 0x9F], [CHR 0xE3, CHR 0x80, CHR 0x80]]"

text \<open>The number of bytes of the white-space character at the front of a text, 0 when
  the text does not start with one.\<close>

definition leading_space :: "string list \<Rightarrow> string \<Rightarrow> nat" where
  "leading_space spaces s = (case find (\<lambda>w. prefix w s) spaces of None \<Rightarrow> 0 | Some w \<Rightarrow> length w)"

fun strip_front :: "string list \<Rightarrow> string \<Rightarrow> string" where
  "strip_front spaces [] = []"
| "strip_front spaces (c # s) =
     (if leading_space spaces (c # s) = 0 then c # s
      else strip_front spaces (drop (leading_space spaces (c # s) - 1) s))"

definition py_lstrip :: "string \<Rightarrow> string" where
  "py_lstrip s = strip_front py_whitespace s"

definition py_rstrip :: "string \<Rightarrow> string" where
  "py_rstrip s = rev (strip_front (map rev py_whitespace) (rev s))"

definition py_strip :: "string \<Rightarrow> string" where
  "py_strip s = py_rstrip (py_lstrip s)"

text \<open>\<^verbatim>\<open>s.find(c)\<close> and \<^verbatim>\<open>s.rfind(c)\<close> for a one-character \<^verbatim>\<open>c\<close>: the lowest and the
  highest index where it occurs, \<open>-1\<close> where it does not.\<close>

fun py_find :: "string \<Rightarrow> char \<Rightarrow> int" where
  "py_find [] c = -1"
| "py_find (x # s) c = (if x = c then 0 else (let i = py_find s c in if i < 0 then -1 else i + 1))"

fun py_rfind :: "string \<Rightarrow> char \<Rightarrow> int" where
  "py_rfind [] c = -1"
| "py_rfind (x # s) c =
     (let i = py_rfind s c in if 0 \<le> i then i + 1 else if x = c then 0 else -1)"

text \<open>\<^verbatim>\<open>s[a:b]\<close> and \<^verbatim>\<open>s[a:]\<close> with Python's reading of the bounds: a negative bound counts
  from the end, and both are clipped to the sequence.\<close>

definition slice_bound :: "nat \<Rightarrow> int \<Rightarrow> nat" where
  "slice_bound n i = (if i < 0 then nat (int n + i) else min n (nat i))"

definition py_slice :: "'a list \<Rightarrow> int \<Rightarrow> int \<Rightarrow> 'a list" where
  "py_slice xs a b = take (slice_bound (length xs) b - slice_bound (length xs) a) (drop (slice_bound (length xs) a) xs)"

definition py_slice_from :: "'a list \<Rightarrow> int \<Rightarrow> 'a list" where
  "py_slice_from xs a = drop (slice_bound (length xs) a) xs"

section \<open>The context builder\<close>

text \<open>\<^verbatim>\<open>build_context_block\<close>. The inner loop appends one line per answer, the outer loop
  one block per turn; \<open>ctx\<close> is \<^verbatim>\<open>context_text\<close>, and the counters are those of
  \<^verbatim>\<open>enumerate\<close>.\<close>

type_synonym 'f turn = "(string \<times> 'f pyval) list"

fun answers_loop :: "'f pyruntime \<Rightarrow> nat \<Rightarrow> 'f pyval list \<Rightarrow> string \<Rightarrow> string" where
  "answers_loop R i [] ctx = ctx"
| "answers_loop R i (ans # rest) ctx =
     answers_loop R (i + 1) rest
       (ctx @ ''Competitor '' @ show_nat (i + 1) @ '': '' @ py_str R ans @ ''\<newline>'')"

definition turn_block :: "'f pyruntime \<Rightarrow> nat \<Rightarrow> 'f turn \<Rightarrow> string \<Rightarrow> py_exn + string" where
  "turn_block R idx turn ctx =
     (let ctx1 = ctx @ ''Turn '' @ show_nat (idx + 1) @ '':\<newline>'';
          ctx2 = ctx1 @ ''Question: '' @ py_str R (dict_get turn ''question'' PNone) @ ''\<newline>'';
          answers = dict_get turn ''answers'' (PList [])
      in case py_iter answers of
           Inl e \<Rightarrow> Inl e
         | Inr items \<Rightarrow>
             (let ctx3 = answers_loop R 0 items ctx2;
                  ranking = dict_get turn ''ranking'' PNone;
                  ctx4 = (if py_truthy R ranking
                          then ctx3 @ ''Ranking: '' @ py_str R ranking @ ''\<newline>''
                          else ctx3)
              in Inr (ctx4 @ ''\<newline>'')))"

fun turns_loop :: "'f pyruntime \<Rightarrow> nat \<Rightarrow> 'f turn list \<Rightarrow> string \<Rightarrow> py_exn + string" where
  "turns_loop R idx [] ctx = Inr ctx"
| "turns_loop R idx (turn # rest) ctx =
     (case turn_block R idx turn ctx of
        Inl e \<Rightarrow> Inl e
      | Inr ctx' \<Rightarrow> turns_loop R (idx + 1) rest ctx')"

definition build_context_block :: "'f pyruntime \<Rightarrow> 'f turn list \<Rightarrow> py_exn + string" where
  "build_context_block R conversation =
     (if conversation = [] then Inr ''''
      else turns_loop R 0 conversation ''Previous Conversation Context:\<newline>\<newline>'')"

section \<open>The JSON decoder\<close>

text \<open>\<^verbatim>\<open>json.loads\<close> on a \<^verbatim>\<open>str\<close>, as the standard library's decoder reads a document
  (strict mode, no hooks): white space is blank, tab, line feed and carriage return; a
  number is an \<^verbatim>\<open>int\<close> unless it has a fraction or an exponent; \<^verbatim>\<open>NaN\<close>, \<^verbatim>\<open>Infinity\<close> and
  \<^verbatim>\<open>-Infinity\<close> are accepted; a repeated key keeps its first position and its last
  value. Every failure is a \<open>JSONDecodeError\<close>. The functions take the text that is
  left to read and return the text after the value they read.\<close>

definition is_json_space :: "char \<Rightarrow> bool" where
  "is_json_space c = (c \<in> set [CHR 0x20, CHR 0x09, CHR 0x0A, CHR 0x0D])"

definition skip_space :: "string \<Rightarrow> string" where
  "skip_space s = dropWhile is_json_space s"

definition is_digit :: "char \<Rightarrow> bool" where
  "is_digit c = (c \<in> set ''0123456789'')"

definition digit_value :: "char \<Rightarrow> nat" where
  "digit_value c = of_char c - 48"

definition decimal_value :: "string \<Rightarrow> nat" where
  "decimal_value ds = foldl (\<lambda>a c. 10 * a + digit_value c) 0 ds"

definition hex_value :: "char \<Rightarrow> nat option" where
  "hex_value c =
     (if is_digit c then Some (of_char c - 48)
      else if c \<in> set ''abcdef'' then Some (of_char c - 87)
      else if c \<in> set ''ABCDEF'' then Some (of_char c - 55)
      else None)"

fun hex4 :: "string \<Rightarrow> nat option" where
  "hex4 [a, b, c, d] =
     (case (hex_value a, hex_value b, hex_value c, hex_value d) of
        (Some w, Some x, Some y, Some z) \<Rightarrow> Some (((w * 16 + x) * 16 + y) * 16 + z)
      | _ \<Rightarrow> None)"
| "hex4 ds = None"

definition utf8_encode :: "nat \<Rightarrow> string" where
  "utf8_encode u =
     (if u < 0x80 then [char_of u]
      else if u < 0x800 then [char_of (0xC0 + u div 64), char_of (0x80 + u mod 64)]
      else if u < 0x10000 then
        [char_of (0xE0 + u div 4096), char_of (0x80 + u div 64 mod 64), char_of (0x80 + u mod 64)]
      else
        [char_of (0xF0 + u div 262144), char_of (0x80 + u div 4096 mod 64),
         char_of (0x80 + u div 64 mod 64), char_of (0x80 + u mod 64)])"

definition simple_escape :: "char \<Rightarrow> char option" where
  "simple_escape e =
     (if e = CHR 0x22 \<or> e = CHR 0x5C \<or> e = CHR ''/'' then Some e
      else if e = CHR ''b'' then Some (CHR 0x08)
      else if e = CHR ''f'' then Some (CHR 0x0C)
      else if e = CHR ''n'' then Some (CHR 0x0A)
      else if e = CHR ''r'' then Some (CHR 0x0D)
      else if e = CHR ''t'' then Some (CHR 0x09)
      else None)"

text \<open>The body of a string literal, after its opening quote: \<open>acc\<close> is the text decoded
  so far. A \<^verbatim>\<open>\uXXXX\<close> escape needs its four digits and one more character after them; a
  high surrogate joins the low surrogate of an escape that follows it, when at least
  seven characters are left.\<close>

fun scanstring :: "string \<Rightarrow> string \<Rightarrow> py_exn + (string \<times> string)" where
  "scanstring acc [] = Inl JSONDecodeError"
| "scanstring acc (c # s) =
     (if c = CHR 0x22 then Inr (acc, s)
      else if c = CHR 0x5C then
        (case s of
           [] \<Rightarrow> Inl JSONDecodeError
         | e # s1 \<Rightarrow>
             if e = CHR ''u'' then
               (if length s1 < 5 then Inl JSONDecodeError
                else case hex4 (take 4 s1) of
                    None \<Rightarrow> Inl JSONDecodeError
                  | Some u \<Rightarrow>
                      if 0xD800 \<le> u \<and> u \<le> 0xDBFF \<and> 7 \<le> length (drop 4 s1)
                         \<and> take 2 (drop 4 s1) = [CHR 0x5C, CHR ''u'']
                      then
                        (case hex4 (take 4 (drop 6 s1)) of
                           None \<Rightarrow> Inl JSONDecodeError
                         | Some u2 \<Rightarrow>
                             if 0xDC00 \<le> u2 \<and> u2 \<le> 0xDFFF
                             then scanstring
                                    (acc @ utf8_encode (0x10000 + (u - 0xD800) * 0x400 + (u2 - 0xDC00)))
                                    (drop 10 s1)
                             else scanstring (acc @ utf8_encode u) (drop 4 s1))
                      else scanstring (acc @ utf8_encode u) (drop 4 s1))
             else
               (case simple_escape e of
                  None \<Rightarrow> Inl JSONDecodeError
                | Some ch \<Rightarrow> scanstring (acc @ [ch]) s1))
      else if (of_char c :: nat) \<le> 0x1F then Inl JSONDecodeError
      else scanstring (acc @ [c]) s)"

text \<open>The exponent of a number: \<^verbatim>\<open>e\<close> or \<^verbatim>\<open>E\<close>, an optional sign and at least one digit;
  without a digit nothing is read.\<close>

definition exponent_part :: "string \<Rightarrow> string" where
  "exponent_part r =
     (case r of
        [] \<Rightarrow> []
      | e # r1 \<Rightarrow>
          if e = CHR ''e'' \<or> e = CHR ''E'' then
            (let sgn = (case r1 of [] \<Rightarrow> [] | g # r2 \<Rightarrow> if g = CHR ''-'' \<or> g = CHR ''+'' then [g] else []);
                 ds = takeWhile is_digit (drop (length sgn) r1)
             in if ds = [] then [] else e # sgn @ ds)
          else [])"

definition fraction_part :: "string \<Rightarrow> string" where
  "fraction_part r =
     (case r of
        p # d # r1 \<Rightarrow> if p = CHR ''.'' \<and> is_digit d then p # d # takeWhile is_digit r1 else []
      | _ \<Rightarrow> [])"

definition match_number :: "'f pyruntime \<Rightarrow> string \<Rightarrow> py_exn + ('f pyval \<times> string)" where
  "match_number R s =
     (let neg = (case s of [] \<Rightarrow> False | c # r \<Rightarrow> c = CHR ''-'');
          body = (if neg then drop 1 s else s)
      in case body of
           [] \<Rightarrow> Inl JSONDecodeError
         | d # r \<Rightarrow>
             if \<not> is_digit d then Inl JSONDecodeError
             else
               (let ipart = (if d = CHR ''0'' then [d] else d # takeWhile is_digit r);
                    r1 = drop (length ipart) body;
                    fpart = fraction_part r1;
                    r2 = drop (length fpart) r1;
                    epart = exponent_part r2;
                    r3 = drop (length epart) r2;
                    sign = (if neg then ''-'' else [])
                in if fpart = [] \<and> epart = []
                   then Inr (PInt (if neg then - int (decimal_value ipart) else int (decimal_value ipart)), r3)
                   else Inr (PFloat (float_of_literal R (sign @ ipart @ fpart @ epart)), r3)))"

text \<open>\<^verbatim>\<open>d[key] = value\<close> on an insertion-ordered dictionary.\<close>

fun dict_set :: "(string \<times> 'f pyval) list \<Rightarrow> string \<Rightarrow> 'f pyval \<Rightarrow> (string \<times> 'f pyval) list" where
  "dict_set [] k v = [(k, v)]"
| "dict_set (kv # d) k v = (if fst kv = k then (k, v) # d else kv # dict_set d k v)"

text \<open>\<open>scan_once\<close> reads one value; \<open>array_items\<close> reads the elements of an array from the
  start of an element, \<open>object_members\<close> the members of an object from the start of a key.
  The two loops go on only with a text shorter than the one they started from. That
  test is for the termination proof alone: \<open>scan_once_shorter\<close> below shows that a value
  read always leaves a shorter text, so the test never fails.\<close>

function scan_once :: "'f pyruntime \<Rightarrow> string \<Rightarrow> py_exn + ('f pyval \<times> string)"
  and array_items :: "'f pyruntime \<Rightarrow> 'f pyval list \<Rightarrow> string \<Rightarrow> py_exn + ('f pyval list \<times> string)"
  and object_members ::
    "'f pyruntime \<Rightarrow> (string \<times> 'f pyval) list \<Rightarrow> string \<Rightarrow> py_exn + ((string \<times> 'f pyval) list \<times> string)"
where
  "scan_once R [] = Inl JSONDecodeError"
| "scan_once R (c # s) =
     (if c = CHR 0x22 then
        (case scanstring [] s of Inl e \<Rightarrow> Inl e | Inr (str, r) \<Rightarrow> Inr (PStr str, r))
      else if c = CHR ''{'' then
        (if take 1 (skip_space s) = ''}'' then Inr (PDict [], drop 1 (skip_space s))
         else case object_members R [] (skip_space s) of
             Inl e \<Rightarrow> Inl e
           | Inr (d, r) \<Rightarrow> Inr (PDict d, r))
      else if c = CHR ''['' then
        (if take 1 (skip_space s) = '']'' then Inr (PList [], drop 1 (skip_space s))
         else case array_items R [] (skip_space s) of
             Inl e \<Rightarrow> Inl e
           | Inr (xs, r) \<Rightarrow> Inr (PList xs, r))
      else if c = CHR ''n'' \<and> take 3 s = ''ull'' then Inr (PNone, drop 3 s)
      else if c = CHR ''t'' \<and> take 3 s = ''rue'' then Inr (PBool True, drop 3 s)
      else if c = CHR ''f'' \<and> take 4 s = ''alse'' then Inr (PBool False, drop 4 s)
      else if c = CHR ''N'' \<and> take 2 s = ''aN'' then
        Inr (PFloat (float_of_literal R ''NaN''), drop 2 s)
      else if c = CHR ''I'' \<and> take 7 s = ''nfinity'' then
        Inr (PFloat (float_of_literal R ''Infinity''), drop 7 s)
      else if c = CHR ''-'' \<and> take 8 s = ''Infinity'' then
        Inr (PFloat (float_of_literal R ''-Infinity''), drop 8 s)
      else match_number R (c # s))"
| "array_items R acc s =
     (case scan_once R s of
        Inl e \<Rightarrow> Inl e
      | Inr (v, r) \<Rightarrow>
          (case skip_space r of
             [] \<Rightarrow> Inl JSONDecodeError
           | d # r1 \<Rightarrow>
               if d = CHR '']'' then Inr (acc @ [v], r1)
               else if d \<noteq> CHR '','' then Inl JSONDecodeError
               else if length (skip_space r1) < length s
               then array_items R (acc @ [v]) (skip_space r1)
               else Inl JSONDecodeError))"
| "object_members R acc s =
     (case s of
        [] \<Rightarrow> Inl JSONDecodeError
      | q # s0 \<Rightarrow>
          if q \<noteq> CHR 0x22 then Inl JSONDecodeError
          else
            (case scanstring [] s0 of
               Inl e \<Rightarrow> Inl e
             | Inr (key, r) \<Rightarrow>
                 (case skip_space r of
                    [] \<Rightarrow> Inl JSONDecodeError
                  | col # r1 \<Rightarrow>
                      if col \<noteq> CHR '':'' then Inl JSONDecodeError
                      else if \<not> length (skip_space r1) < length s then Inl JSONDecodeError
                      else
                        (case scan_once R (skip_space r1) of
                           Inl e \<Rightarrow> Inl e
                         | Inr (v, r2) \<Rightarrow>
                             (case skip_space r2 of
                                [] \<Rightarrow> Inl JSONDecodeError
                              | d # r3 \<Rightarrow>
                                  if d = CHR ''}'' then Inr (dict_set acc key v, r3)
                                  else if d \<noteq> CHR '','' then Inl JSONDecodeError
                                  else if length (skip_space r3) < length s
                                  then object_members R (dict_set acc key v) (skip_space r3)
                                  else Inl JSONDecodeError)))))"
  by pat_completeness auto

termination
proof (relation "measure (\<lambda>x. case x of
      Inl (R, s) \<Rightarrow> 2 * length s
    | Inr (Inl (R, acc, s)) \<Rightarrow> 2 * length s + 1
    | Inr (Inr (R, acc, s)) \<Rightarrow> 2 * length s + 1)", goal_cases)
  case 1
  show ?case by simp
next
  case (2 R c s)
  show ?case using length_dropWhile_le [of is_json_space s] by (simp add: skip_space_def)
next
  case (3 R c s)
  show ?case using length_dropWhile_le [of is_json_space s] by (simp add: skip_space_def)
qed simp_all

definition utf8_bom :: string where
  "utf8_bom = [CHR 0xEF, CHR 0xBB, CHR 0xBF]"

definition json_loads :: "'f pyruntime \<Rightarrow> string \<Rightarrow> py_exn + 'f pyval" where
  "json_loads R s =
     (if prefix utf8_bom s then Inl JSONDecodeError
      else case scan_once R (skip_space s) of
          Inl e \<Rightarrow> Inl e
        | Inr (v, r) \<Rightarrow> if skip_space r = [] then Inr v else Inl JSONDecodeError)"

section \<open>The ranking parser\<close>

text \<open>The \<^verbatim>\<open>try\<close> block of \<^verbatim>\<open>judge_answers\<close>: \<open>ranking_try\<close> is its body, with the exception it
  may raise; \<open>parse_ranking\<close> adds the handler, which turns every exception into the
  empty ranking. \<^verbatim>\<open>parsed.get\<close> exists on a dictionary only; on another value the
  attribute lookup raises.\<close>

definition ranking_try :: "'f pyruntime \<Rightarrow> string \<Rightarrow> py_exn + 'f pyval list" where
  "ranking_try R raw_output =
     (let raw = py_strip raw_output;
          raw = (if CHR ''{'' \<in> set raw \<and> CHR ''}'' \<in> set raw
                 then py_slice raw (py_find raw CHR ''{'') (py_rfind raw CHR ''}'' + 1)
                 else raw)
      in case json_loads R raw of
           Inl e \<Rightarrow> Inl e
         | Inr (PDict d) \<Rightarrow>
             (case dict_get d ''results'' (PList []) of
                PList ranking \<Rightarrow> Inr ranking
              | _ \<Rightarrow> Inr [])
         | Inr _ \<Rightarrow> Inl AttributeError)"

definition parse_ranking :: "'f pyruntime \<Rightarrow> string \<Rightarrow> 'f pyval list" where
  "parse_ranking R raw_output =
     (case ranking_try R raw_output of Inl e \<Rightarrow> [] | Inr ranking \<Rightarrow> ranking)"

section \<open>Floating-point numbers\<close>

text \<open>A Python \<^verbatim>\<open>float\<close> is an IEEE 754 binary64 number. The finite doubles are rationals and
  are kept as such: \<open>to_double x\<close> is the double nearest to the rational \<open>x\<close>, a tie going to
  the even significand. \<open>exponent x\<close> is the binary exponent of \<open>x\<close>, the \<open>e\<close> with
  \<open>2 powi e \<le> \<bar>x\<bar> < 2 powi (e + 1)\<close>, and \<open>quantum x\<close> the spacing of the doubles around \<open>x\<close>:
  53 bits of significand, and \<open>2 powi (- 1074)\<close> below \<open>2 powi (- 1022)\<close>. Overflow to infinity
  is left out: the floats of this program are readings of a clock in seconds, their
  differences and the rounded differences.\<close>

definition round_half_even :: "rat \<Rightarrow> int" where
  "round_half_even x =
     (let f = \<lfloor>x\<rfloor>; d = x - of_int f
      in if d < 1 / 2 then f else if 1 / 2 < d then f + 1 else if even f then f else f + 1)"

definition exponent :: "rat \<Rightarrow> int" where
  "exponent x =
     (let (p, q) = quotient_of \<bar>x\<bar>;
          e = bitlen p - bitlen q
      in if 2 powi e \<le> \<bar>x\<bar> then e else e - 1)"

definition quantum :: "rat \<Rightarrow> rat" where
  "quantum x = 2 powi max (exponent x - 52) (- 1074)"

definition to_double :: "rat \<Rightarrow> rat" where
  "to_double x = (if x = 0 then 0 else of_int (round_half_even (x / quantum x)) * quantum x)"

text \<open>\<^verbatim>\<open>a - b\<close> on two floats: the exact difference, rounded once.\<close>

definition float_sub :: "rat \<Rightarrow> rat \<Rightarrow> rat" where
  "float_sub a b = to_double (a - b)"

text \<open>\<^verbatim>\<open>round(x, n)\<close> on a float, for \<open>n \<ge> 0\<close>: CPython writes the exact value of \<open>x\<close> with \<open>n\<close>
  digits after the point, correctly rounded with a tie to the even digit, and reads the
  decimal back as the nearest double.\<close>

definition py_round :: "rat \<Rightarrow> nat \<Rightarrow> rat" where
  "py_round x n = to_double (of_int (round_half_even (x * 10 ^ n)) / 10 ^ n)"

section \<open>The backend, the log of calls and the clock\<close>

text \<open>The world outside the core is an \<open>env\<close>:
  \<^item> \<open>reply\<close> is the chat backend. For the JSON body that \<^verbatim>\<open>ollama_chat\<close> posts it gives the
    text of the first choice, or the exception that \<^verbatim>\<open>ollama_chat\<close> raises (the
    transport's, \<^verbatim>\<open>raise_for_status\<close>'s, or that of a reply body of another shape);
  \<^item> \<open>finish_order\<close> is the order in which the concurrent competitor calls complete, as
    positions in the request list (positions it leaves out complete last, in request
    order);
  \<^item> \<open>clock\<close> gives the successive readings of \<^verbatim>\<open>time.time()\<close>, the floats it returns.

  A \<open>world\<close> is the state a run changes: the bodies posted so far and the number of
  clock readings taken.\<close>

record chat_message =
  msg_role :: string
  msg_content :: string

record chat_payload =
  p_model :: string
  p_messages :: "chat_message list"
  p_temperature :: rat
  p_max_tokens :: nat
  p_format :: "string option"

record env =
  reply :: "chat_payload \<Rightarrow> py_exn + string"
  finish_order :: "nat list"
  clock :: "nat \<Rightarrow> rat"

record world =
  sent :: "chat_payload list"
  ticks :: nat

definition QUESTION_MODEL :: string where
  "QUESTION_MODEL = ''llama3.2''"

definition COMPETITOR_MODELS :: "string list" where
  "COMPETITOR_MODELS = [''mistral:latest'', ''gemma3:1b'', ''llama3.2'']"

definition JUDGE_MODEL :: string where
  "JUDGE_MODEL = ''llama3.2''"

definition time_time :: "env \<Rightarrow> world \<Rightarrow> rat \<times> world" where
  "time_time E w = (clock E (ticks w), w\<lparr>ticks := ticks w + 1\<rparr>)"

text \<open>\<^verbatim>\<open>ollama_chat\<close>: \<open>chat_request\<close> is the \<^verbatim>\<open>payload\<close> it builds, with the key \<^verbatim>\<open>format\<close> only
  when \<^verbatim>\<open>response_format == "json"\<close>.\<close>

definition chat_request :: "string \<Rightarrow> chat_message list \<Rightarrow> rat \<Rightarrow> string option \<Rightarrow> chat_payload" where
  "chat_request model messages temperature response_format =
     \<lparr>p_model = model, p_messages = messages, p_temperature = temperature,
      p_max_tokens = 500,
      p_format = (if response_format = Some ''json'' then Some ''json'' else None)\<rparr>"

definition ollama_chat ::
  "env \<Rightarrow> string \<Rightarrow> chat_message list \<Rightarrow> rat \<Rightarrow> string option \<Rightarrow> world \<Rightarrow> (py_exn + string) \<times> world"
where
  "ollama_chat E model messages temperature response_format w =
     (let payload = chat_request model messages temperature response_format;
          w1 = w\<lparr>sent := sent w @ [payload]\<rparr>
      in case reply E payload of
           Inl e \<Rightarrow> (Inl e, w1)
         | Inr content \<Rightarrow> (Inr (py_strip content), w1))"

section \<open>Question generation\<close>

definition build_initial_messages :: "chat_message list" where
  "build_initial_messages =
     [\<lparr>msg_role = ''user'',
       msg_content =
         ''Please come up with a challenging, nuanced question that I can ask ''
         @ ''a number of LLMs to evaluate their intelligence. ''
         @ ''Answer only with the question, no explanation.''\<rparr>]"

definition generate_question :: "env \<Rightarrow> world \<Rightarrow> (py_exn + string \<times> rat) \<times> world" where
  "generate_question E w =
     (let (start, w1) = time_time E w;
          (r, w2) = ollama_chat E QUESTION_MODEL build_initial_messages 0 None w1
      in case r of
           Inl e \<Rightarrow> (Inl e, w2)
         | Inr question \<Rightarrow>
             (let (now, w3) = time_time E w2 in (Inr (question, float_sub now start), w3)))"

section \<open>The competitor fan-out\<close>

definition competitor_prompt :: "string \<Rightarrow> string \<Rightarrow> string" where
  "competitor_prompt context_block question =
     py_strip
       (''\<newline>'' @ context_block @ ''\<newline>\<newline>Current Question:\<newline>'' @ question
        @ ''\<newline>\<newline>Provide your best possible answer considering the previous context if relevant.\<newline>'')"

text \<open>\<^verbatim>\<open>[{"role": "user", "content": full_prompt}]\<close>.\<close>

definition user_message :: "string \<Rightarrow> chat_message list" where
  "user_message full_prompt = [\<lparr>msg_role = ''user'', msg_content = full_prompt\<rparr>]"

text \<open>The tasks of the list comprehension, started in the order of the model list.\<close>

fun chat_all ::
  "env \<Rightarrow> string list \<Rightarrow> chat_message list \<Rightarrow> world \<Rightarrow> (py_exn + string) list \<times> world"
where
  "chat_all E [] messages w = ([], w)"
| "chat_all E (model # models) messages w =
     (let (r, w1) = ollama_chat E model messages 0 None w;
          (rs, w2) = chat_all E models messages w1
      in (r # rs, w2))"

text \<open>\<^verbatim>\<open>asyncio.gather\<close> without \<^verbatim>\<open>return_exceptions\<close>: the results in the order of the
  awaitables when all succeed, otherwise the exception of the call that failed first.\<close>

definition failures :: "nat list \<Rightarrow> (py_exn + 'a) list \<Rightarrow> py_exn list" where
  "failures order rs =
     concat (map (\<lambda>i. if i < length rs then (case rs ! i of Inl e \<Rightarrow> [e] | Inr x \<Rightarrow> []) else []) order)"

definition successes :: "(py_exn + 'a) list \<Rightarrow> 'a list" where
  "successes rs = concat (map (\<lambda>r. case r of Inl e \<Rightarrow> [] | Inr x \<Rightarrow> [x]) rs)"

definition gather :: "nat list \<Rightarrow> (py_exn + 'a) list \<Rightarrow> py_exn + 'a list" where
  "gather order rs =
     (case failures (order @ [0..<length rs]) rs of
        [] \<Rightarrow> Inr (successes rs)
      | e # es \<Rightarrow> Inl e)"

definition generate_competitor_answers ::
  "'f pyruntime \<Rightarrow> env \<Rightarrow> string \<Rightarrow> 'f turn list \<Rightarrow> world
     \<Rightarrow> (py_exn + string list \<times> string list \<times> rat) \<times> world"
where
  "generate_competitor_answers R E question conversation w =
     (let (start, w1) = time_time E w
      in case build_context_block R conversation of
           Inl e \<Rightarrow> (Inl e, w1)
         | Inr context_block \<Rightarrow>
             (let full_prompt = competitor_prompt context_block question;
                  messages = user_message full_prompt;
                  (rs, w2) = chat_all E COMPETITOR_MODELS messages w1
              in case gather (finish_order E) rs of
                   Inl e \<Rightarrow> (Inl e, w2)
                 | Inr answers \<Rightarrow>
                     (let (now, w3) = time_time E w2
                      in (Inr (COMPETITOR_MODELS, answers, float_sub now start), w3))))"

section \<open>The judge\<close>

fun combined_loop :: "nat \<Rightarrow> string list \<Rightarrow> string \<Rightarrow> string" where
  "combined_loop i [] combined = combined"
| "combined_loop i (answer # rest) combined =
     combined_loop (i + 1) rest
       (combined @ ''Competitor '' @ show_nat (i + 1) @ '':\<newline>'' @ answer @ ''\<newline>\<newline>'')"

definition build_judge_prompt ::
  "'f pyruntime \<Rightarrow> string \<Rightarrow> string list \<Rightarrow> 'f turn list \<Rightarrow> py_exn + string"
where
  \<open>build_judge_prompt R question answers conversation =
     (case build_context_block R conversation of
        Inl e \<Rightarrow> Inl e
      | Inr context_block \<Rightarrow>
          (let combined = combined_loop 0 answers []
           in Inr (py_strip
                (''\<newline>You must rank the competitors from best to worst.\<newline>\<newline>''
                 @ context_block
                 @ ''\<newline>\<newline>Current Question:\<newline>''
                 @ question
                 @ ''\<newline>\<newline>Responses:\<newline>''
                 @ combined
                 @ ''\<newline>\<newline>Return ONLY valid JSON in this exact structure:\<newline>\<newline>''
                 @ ''{\<newline>  "results": [list_of_competitor_numbers_in_best_to_worst_order]\<newline>}\<newline>''
                 @ ''\<newline>Rules:\<newline>- No explanations\<newline>- No markdown\<newline>- No commentary\<newline>''
                 @ ''- No extra text\<newline>- Strict JSON only\<newline>''))))\<close>

definition judge_messages :: "string \<Rightarrow> chat_message list" where
  "judge_messages prompt =
     [\<lparr>msg_role = ''system'',
       msg_content = ''You are a strict ranking engine. Output JSON only.''\<rparr>,
      \<lparr>msg_role = ''user'', msg_content = prompt\<rparr>]"

definition judge_answers ::
  "'f pyruntime \<Rightarrow> env \<Rightarrow> string \<Rightarrow> string list \<Rightarrow> string list \<Rightarrow> 'f turn list \<Rightarrow> world
     \<Rightarrow> (py_exn + 'f pyval list \<times> rat) \<times> world"
where
  "judge_answers R E question competitors answers conversation w =
     (let (start, w1) = time_time E w
      in case build_judge_prompt R question answers conversation of
           Inl e \<Rightarrow> (Inl e, w1)
         | Inr prompt \<Rightarrow>
             (let messages = judge_messages prompt;
                  (r, w2) = ollama_chat E JUDGE_MODEL messages 0 (Some ''json'') w1
              in case r of
                   Inl e \<Rightarrow> (Inl e, w2)
                 | Inr raw_output \<Rightarrow>
                     (let ranking = parse_ranking R raw_output;
                          (now, w3) = time_time E w2
                      in (Inr (ranking, float_sub now start), w3))))"

section \<open>The orchestrator\<close>

record 'f orchestrate_request =
  req_session_id :: string
  req_question :: "string option"
  req_conversation :: "'f turn list option"
  req_num_competitors :: int
  req_temperature :: rat

record latency_breakdown =
  question_generation_sec :: rat
  competitor_generation_sec :: rat
  judge_sec :: rat
  total_sec :: rat

record 'f response_payload =
  res_question :: string
  res_competitors :: "string list"
  res_answers :: "string list"
  res_ranking :: "'f pyval list"
  res_latency :: latency_breakdown
  res_conversation :: "'f turn list"

definition MAX_TURNS :: int where
  "MAX_TURNS = 5"

text \<open>\<^verbatim>\<open>request.conversation[-MAX_TURNS:] if request.conversation else []\<close>.\<close>

definition conversation_window :: "'f turn list option \<Rightarrow> 'f turn list" where
  "conversation_window c =
     (case c of
        None \<Rightarrow> []
      | Some turns \<Rightarrow> if turns = [] then [] else py_slice_from turns (- MAX_TURNS))"

definition new_turn :: "string \<Rightarrow> string list \<Rightarrow> 'f pyval list \<Rightarrow> 'f turn" where
  "new_turn question answers ranking =
     [(''question'', PStr question), (''answers'', PList (map PStr answers)),
      (''ranking'', PList ranking)]"

definition run_orchestration ::
  "'f pyruntime \<Rightarrow> env \<Rightarrow> 'f orchestrate_request \<Rightarrow> world
     \<Rightarrow> (py_exn + 'f response_payload) \<times> world"
where
  "run_orchestration R E request w =
     (let (total_start, w1) = time_time E w;
          conversation = conversation_window (req_conversation request);
          (q, w2) = generate_question E w1
      in case q of
           Inl e \<Rightarrow> (Inl e, w2)
         | Inr (question, q_latency) \<Rightarrow>
             (let (c, w3) = generate_competitor_answers R E question conversation w2
              in case c of
                   Inl e \<Rightarrow> (Inl e, w3)
                 | Inr (competitors, answers, c_latency) \<Rightarrow>
                     (let (j, w4) = judge_answers R E question competitors answers conversation w3
                      in case j of
                           Inl e \<Rightarrow> (Inl e, w4)
                         | Inr (ranking, j_latency) \<Rightarrow>
                             (let (now, w5) = time_time E w4;
                                  total_time = py_round (float_sub now total_start) 3;
                                  updated_conversation =
                                    conversation @ [new_turn question answers ranking]
                              in (Inr \<lparr>res_question = question,
                                       res_competitors = competitors,
                                       res_answers = answers,
                                       res_ranking = ranking,
                                       res_latency =
                                         \<lparr>question_generation_sec = py_round q_latency 3,
                                          competitor_generation_sec = py_round c_latency 3,
                                          judge_sec = py_round j_latency 3,
                                          total_sec = total_time\<rparr>,
                                       res_conversation = updated_conversation\<rparr>,
                                  w5)))))"

section \<open>Definitions for the statements\<close>

text \<open>What \<^verbatim>\<open>ollama_chat\<close> returns for a request body: the stripped text of the reply, or the
  exception.\<close>

definition chat_outcome :: "env \<Rightarrow> chat_payload \<Rightarrow> py_exn + string" where
  "chat_outcome E p = (case reply E p of Inl e \<Rightarrow> Inl e | Inr content \<Rightarrow> Inr (py_strip content))"

text \<open>The ranking parser in the words of the specification (section 4.6): trim; when
  both braces occur, keep the text from the first \<^verbatim>\<open>{\<close> to the last \<^verbatim>\<open>}\<close>; decode it as JSON;
  read the field \<^verbatim>\<open>results\<close>; the empty sequence when the field is not a list or a step
  fails. \<open>json_integer\<close> holds of the values that are JSON integers.\<close>

definition spec_brace_slice :: "string \<Rightarrow> string" where
  "spec_brace_slice t =
     rev (dropWhile (\<lambda>c. c \<noteq> CHR ''}'') (rev (dropWhile (\<lambda>c. c \<noteq> CHR ''{'') t)))"

definition spec_parse_ranking :: "'f pyruntime \<Rightarrow> string \<Rightarrow> 'f pyval list" where
  "spec_parse_ranking R raw_text =
     (let trimmed = py_strip raw_text;
          slice = (if CHR ''{'' \<in> set trimmed \<and> CHR ''}'' \<in> set trimmed
                   then spec_brace_slice trimmed else trimmed)
      in case json_loads R slice of
           Inr (PDict obj) \<Rightarrow>
             (case map_of obj ''results'' of
                Some (PList xs) \<Rightarrow> xs
              | _ \<Rightarrow> [])
         | _ \<Rightarrow> [])"

definition json_integer :: "'f pyval \<Rightarrow> bool" where
  "json_integer v = (case v of PInt i \<Rightarrow> True | _ \<Rightarrow> False)"

text \<open>The context block in the words of the specification (section 4.2): for each turn
  in order, \<^verbatim>\<open>Turn N:\<close> counted from 1, the question, each answer as
  \<^verbatim>\<open>Competitor i: <answer>\<close> by its position counted from 1, the ranking when there is
  one, and a blank line. A ranking is there when the value under \<^verbatim>\<open>ranking\<close> is true in
  Python's sense, which for a sequence means that it is not empty. \<open>iterable\<close> holds of
  the values \<^verbatim>\<open>enumerate\<close> accepts and \<open>items_of\<close> gives their elements.\<close>

definition answer_line :: "'f pyruntime \<Rightarrow> nat \<Rightarrow> 'f pyval \<Rightarrow> string" where
  "answer_line R i ans = ''Competitor '' @ show_nat i @ '': '' @ py_str R ans @ ''\<newline>''"

definition iterable :: "'f pyval \<Rightarrow> bool" where
  "iterable v = (case py_iter v of Inl e \<Rightarrow> False | Inr items \<Rightarrow> True)"

definition items_of :: "'f pyval \<Rightarrow> 'f pyval list" where
  "items_of v = (case py_iter v of Inl e \<Rightarrow> [] | Inr items \<Rightarrow> items)"

definition ranking_present :: "'f pyruntime \<Rightarrow> 'f turn \<Rightarrow> bool" where
  "ranking_present R turn = py_truthy R (dict_get turn ''ranking'' PNone)"

definition spec_turn_text :: "'f pyruntime \<Rightarrow> nat \<Rightarrow> 'f turn \<Rightarrow> string" where
  "spec_turn_text R n turn =
     ''Turn '' @ show_nat n @ '':\<newline>''
     @ ''Question: '' @ py_str R (dict_get turn ''question'' PNone) @ ''\<newline>''
     @ concat (map (\<lambda>(i, ans). answer_line R (i + 1) ans)
                 (enumerate 0 (items_of (dict_get turn ''answers'' (PList [])))))
     @ (if ranking_present R turn
        then ''Ranking: '' @ py_str R (dict_get turn ''ranking'' PNone) @ ''\<newline>''
        else [])
     @ ''\<newline>''"

definition spec_context_text :: "'f pyruntime \<Rightarrow> 'f turn list \<Rightarrow> string" where
  "spec_context_text R conversation =
     (if conversation = [] then []
      else ''Previous Conversation Context:\<newline>\<newline>''
           @ concat (map (\<lambda>(idx, turn). spec_turn_text R (idx + 1) turn) (enumerate 0 conversation)))"

definition answers_iterable :: "'f turn \<Rightarrow> bool" where
  "answers_iterable turn = iterable (dict_get turn ''answers'' (PList []))"

text \<open>Concrete inputs for the closed instances of the theorems: a runtime in which a
  float stands as its literal, a backend whose judge answers \<^verbatim>\<open>{"results": [3, 1, 2]}\<close>, a
  clock whose readings are doubles and increase, a history of six turns and two
  requests that share it.\<close>

definition demo_runtime :: "string pyruntime" where
  "demo_runtime =
     \<lparr>float_of_literal = (\<lambda>s. s), float_repr = (\<lambda>s. s), float_nonzero = (\<lambda>s. True),
      str_repr = (\<lambda>s. s)\<rparr>"

definition demo_env :: env where
  \<open>demo_env =
     \<lparr>reply = (\<lambda>p. if p_format p = Some ''json'' then Inr ''{"results": [3, 1, 2]}''
                     else Inr (''answer of '' @ p_model p)),
      finish_order = [2, 0, 1],
      clock = (\<lambda>n. 1700000000 + of_nat (n div 2) * (4099 / 4096) + of_nat n / 1048576)\<rparr>\<close>

definition demo_world :: world where
  "demo_world = \<lparr>sent = [], ticks = 0\<rparr>"

definition demo_turn :: "string \<Rightarrow> string turn" where
  "demo_turn q = [(''question'', PStr q), (''answers'', PList [PStr ''A1'']), (''ranking'', PList [PInt 1])]"

definition demo_history :: "string turn list" where
  "demo_history = [demo_turn ''Q1'', demo_turn ''Q2'', demo_turn ''Q3'', demo_turn ''Q4'',
                   demo_turn ''Q5'', demo_turn ''Q6'']"

definition demo_request :: "string orchestrate_request" where
  "demo_request =
     \<lparr>req_session_id = ''s1'', req_question = None, req_conversation = Some demo_history,
      req_num_competitors = 3, req_temperature = 7 / 10\<rparr>"

definition demo_request_other :: "string orchestrate_request" where
  "demo_request_other =
     \<lparr>req_session_id = ''s2'', req_question = Some ''What is a proof?'',
      req_conversation = Some demo_history, req_num_competitors = 5, req_temperature = 3 / 2\<rparr>"

text \<open>A backend whose replies come with white space around them.\<close>

definition padded_env :: env where
  "padded_env = demo_env\<lparr>reply := (\<lambda>p. Inr (''  '' @ p_model p @ '' says hi\<newline>''))\<rparr>"

text \<open>Backends that fail: on every call, on the second competitor, on the judge.\<close>

definition competitor_down_env :: env where
  "competitor_down_env =
     demo_env\<lparr>reply := (\<lambda>p. if p_model p = ''gemma3:1b''
                             then Inl (BackendUnavailable ''connection refused'')
                             else reply demo_env p)\<rparr>"

definition question_down_env :: env where
  "question_down_env = demo_env\<lparr>reply := (\<lambda>p. Inl (BackendUnavailable ''connection refused''))\<rparr>"

definition judge_down_env :: env where
  "judge_down_env =
     demo_env\<lparr>reply := (\<lambda>p. if p_format p = Some ''json''
                             then Inl (BackendUnavailable ''status 500'')
                             else reply demo_env p)\<rparr>"

section \<open>Facts about the stages\<close>


lemma ollama_chat_eq:
  "ollama_chat E model messages t f w =
     (chat_outcome E (chat_request model messages t f),
      w\<lparr>sent := sent w @ [chat_request model messages t f]\<rparr>)"
  by (simp add: ollama_chat_def chat_outcome_def Let_def split: sum.splits)

lemma chat_all_eq:
  "chat_all E models messages w =
     (map (\<lambda>m. chat_outcome E (chat_request m messages 0 None)) models,
      w\<lparr>sent := sent w @ map (\<lambda>m. chat_request m messages 0 None) models\<rparr>)"
  by (induction models arbitrary: w) (simp_all add: ollama_chat_eq)

lemma failures_Nil_iff:
  "failures order rs = [] \<longleftrightarrow> (\<forall>i\<in>set order. i < length rs \<longrightarrow> (\<exists>x. rs ! i = Inr x))"
  by (induction order) (auto simp: failures_def split: sum.splits)

lemma failures_subset: "e \<in> set (failures order rs) \<Longrightarrow> Inl e \<in> set rs"
  by (auto simp: failures_def split: if_splits sum.splits)

lemma successes_map_Inr: "successes (map Inr xs) = xs"
  by (induction xs) (simp_all add: successes_def)

lemma all_Inr_map: "(\<forall>i<length rs. \<exists>x. rs ! i = Inr x) \<Longrightarrow> rs = map Inr (successes rs)"
proof (induction rs)
  case Nil
  show ?case by (simp add: successes_def)
next
  case (Cons r rs)
  from Cons.prems have "\<exists>x. (r # rs) ! 0 = Inr x" by blast
  then obtain x where r: "r = Inr x" by auto
  have "\<forall>i<length rs. \<exists>x. rs ! i = Inr x"
  proof (intro allI impI)
    fix i assume "i < length rs"
    then have "Suc i < length (r # rs)" by simp
    with Cons.prems have "\<exists>x. (r # rs) ! Suc i = Inr x" by blast
    then show "\<exists>x. rs ! i = Inr x" by simp
  qed
  with Cons.IH have "rs = map Inr (successes rs)" by blast
  with r show ?case by (simp add: successes_def)
qed

lemma gather_Inr_iff: "gather order rs = Inr xs \<longleftrightarrow> rs = map Inr xs"
proof
  assume g: "gather order rs = Inr xs"
  then have f: "failures (order @ [0..<length rs]) rs = []" and xs: "xs = successes rs"
    by (auto simp: gather_def split: list.splits)
  from f have "\<forall>i<length rs. \<exists>x. rs ! i = Inr x"
    by (auto simp: failures_Nil_iff)
  then have "rs = map Inr (successes rs)" by (rule all_Inr_map)
  with xs show "rs = map Inr xs" by simp
next
  assume rs: "rs = map Inr xs"
  then have "failures (order @ [0..<length rs]) rs = []"
    by (auto simp: failures_Nil_iff)
  with rs show "gather order rs = Inr xs"
    by (simp add: gather_def successes_map_Inr)
qed

lemma gather_Inl: "gather order rs = Inl e \<Longrightarrow> Inl e \<in> set rs"
proof -
  assume "gather order rs = Inl e"
  then obtain es where "failures (order @ [0..<length rs]) rs = e # es"
    by (auto simp: gather_def split: list.splits)
  then have "e \<in> set (failures (order @ [0..<length rs]) rs)" by simp
  then show ?thesis by (rule failures_subset)
qed

lemma gather_cases: "(\<exists>xs. gather order rs = Inr xs \<and> rs = map Inr xs) \<or> (\<exists>e. gather order rs = Inl e \<and> Inl e \<in> set rs)"
  by (cases "gather order rs") (auto simp: gather_Inr_iff dest: gather_Inl)

lemma generate_question_eq:
  "generate_question E w =
     (case chat_outcome E (chat_request QUESTION_MODEL build_initial_messages 0 None) of
        Inl e \<Rightarrow>
          (Inl e, w\<lparr>sent := sent w @ [chat_request QUESTION_MODEL build_initial_messages 0 None],
                    ticks := ticks w + 1\<rparr>)
      | Inr question \<Rightarrow>
          (Inr (question, float_sub (clock E (ticks w + 1)) (clock E (ticks w))),
           w\<lparr>sent := sent w @ [chat_request QUESTION_MODEL build_initial_messages 0 None],
             ticks := ticks w + 2\<rparr>))"
  by (simp add: generate_question_def time_time_def ollama_chat_eq Let_def split: sum.splits)


lemma generate_competitor_answers_eq:
  "generate_competitor_answers R E question conversation w =
     (case build_context_block R conversation of
        Inl e \<Rightarrow> (Inl e, w\<lparr>ticks := ticks w + 1\<rparr>)
      | Inr context_block \<Rightarrow>
          (let messages = user_message (competitor_prompt context_block question);
               w2 = w\<lparr>sent := sent w @ map (\<lambda>m. chat_request m messages 0 None) COMPETITOR_MODELS,
                      ticks := ticks w + 1\<rparr>
           in case gather (finish_order E)
                     (map (\<lambda>m. chat_outcome E (chat_request m messages 0 None)) COMPETITOR_MODELS) of
                Inl e \<Rightarrow> (Inl e, w2)
              | Inr answers \<Rightarrow>
                  (Inr (COMPETITOR_MODELS, answers, float_sub (clock E (ticks w + 1)) (clock E (ticks w))),
                   w2\<lparr>ticks := ticks w + 2\<rparr>)))"
  by (simp add: generate_competitor_answers_def time_time_def chat_all_eq Let_def
           split: sum.splits)

lemma build_judge_prompt_Inl:
  "build_context_block R conversation = Inl e \<Longrightarrow> build_judge_prompt R question answers conversation = Inl e"
  by (simp add: build_judge_prompt_def)

lemma build_judge_prompt_Inr:
  "build_context_block R conversation = Inr ctx \<Longrightarrow> \<exists>prompt. build_judge_prompt R question answers conversation = Inr prompt"
  by (simp add: build_judge_prompt_def Let_def)

lemma judge_answers_eq:
  "judge_answers R E question competitors answers conversation w =
     (case build_judge_prompt R question answers conversation of
        Inl e \<Rightarrow> (Inl e, w\<lparr>ticks := ticks w + 1\<rparr>)
      | Inr prompt \<Rightarrow>
          (let w2 = w\<lparr>sent := sent w @ [chat_request JUDGE_MODEL (judge_messages prompt) 0 (Some ''json'')],
                      ticks := ticks w + 1\<rparr>
           in case chat_outcome E (chat_request JUDGE_MODEL (judge_messages prompt) 0 (Some ''json'')) of
                Inl e \<Rightarrow> (Inl e, w2)
              | Inr raw_output \<Rightarrow>
                  (Inr (parse_ranking R raw_output, float_sub (clock E (ticks w + 1)) (clock E (ticks w))),
                   w2\<lparr>ticks := ticks w + 2\<rparr>)))"
  by (simp add: judge_answers_def time_time_def ollama_chat_eq Let_def split: sum.splits)

text \<open>A run that succeeds: its stages, its readings of the clock.\<close>

lemma run_orchestration_Inr:
  assumes "run_orchestration R E request w = (Inr res, w')"
  shows "\<exists>question answers ranking.
      chat_outcome E (chat_request QUESTION_MODEL build_initial_messages 0 None) = Inr question
    \<and> (\<exists>ctx. build_context_block R (conversation_window (req_conversation request)) = Inr ctx
         \<and> map (\<lambda>m. chat_outcome E (chat_request m (user_message (competitor_prompt ctx question)) 0 None))
               COMPETITOR_MODELS = map Inr answers)
    \<and> (\<exists>prompt. build_judge_prompt R question answers (conversation_window (req_conversation request)) = Inr prompt
         \<and> (\<exists>raw. chat_outcome E (chat_request JUDGE_MODEL (judge_messages prompt) 0 (Some ''json'')) = Inr raw
              \<and> ranking = parse_ranking R raw))
    \<and> res = \<lparr>res_question = question, res_competitors = COMPETITOR_MODELS, res_answers = answers,
              res_ranking = ranking,
              res_latency =
                \<lparr>question_generation_sec =
                   py_round (float_sub (clock E (ticks w + 2)) (clock E (ticks w + 1))) 3,
                 competitor_generation_sec =
                   py_round (float_sub (clock E (ticks w + 4)) (clock E (ticks w + 3))) 3,
                 judge_sec = py_round (float_sub (clock E (ticks w + 6)) (clock E (ticks w + 5))) 3,
                 total_sec = py_round (float_sub (clock E (ticks w + 7)) (clock E (ticks w))) 3\<rparr>,
              res_conversation =
                conversation_window (req_conversation request) @ [new_turn question answers ranking]\<rparr>"
  using assms
  by (auto simp: run_orchestration_def time_time_def generate_question_eq
        generate_competitor_answers_eq judge_answers_eq gather_Inr_iff Let_def
        eval_nat_numeral
      split: prod.splits sum.splits)

subsection \<open>The conversation window\<close>

lemma slice_bound_neg5: "slice_bound n (- MAX_TURNS) = n - 5"
  by (auto simp: slice_bound_def MAX_TURNS_def)

lemma conversation_window_Some: "conversation_window (Some H) = drop (length H - 5) H"
  by (simp add: conversation_window_def py_slice_from_def slice_bound_neg5)

lemma conversation_window_None: "conversation_window None = []"
  by (simp add: conversation_window_def)

lemma conversation_window_idem:
  "conversation_window (Some (conversation_window c)) = conversation_window c"
  by (cases c) (simp_all add: conversation_window_Some conversation_window_None)

subsection \<open>The context builder in closed form\<close>

lemma answers_loop_eq:
  "answers_loop R i items ctx
     = ctx @ concat (map (\<lambda>(k, ans). answer_line R (k + 1) ans) (enumerate i items))"
  by (induction items arbitrary: i ctx) (simp_all add: answer_line_def)

lemma turn_block_eq:
  assumes "answers_iterable turn"
  shows "turn_block R idx turn ctx = Inr (ctx @ spec_turn_text R (idx + 1) turn)"
proof -
  from assms obtain items where it: "py_iter (dict_get turn ''answers'' (PList [])) = Inr items"
    by (auto simp: answers_iterable_def iterable_def split: sum.splits)
  then have io: "items_of (dict_get turn ''answers'' (PList [])) = items"
    by (simp add: items_of_def)
  show ?thesis
    by (simp add: turn_block_def Let_def it io spec_turn_text_def ranking_present_def
          answers_loop_eq)
qed

lemma turns_loop_eq:
  assumes "list_all answers_iterable turns"
  shows "turns_loop R idx turns ctx
     = Inr (ctx @ concat (map (\<lambda>(k, turn). spec_turn_text R (k + 1) turn) (enumerate idx turns)))"
  using assms
  by (induction turns arbitrary: idx ctx) (simp_all add: turn_block_eq)

lemma build_context_block_eq:
  assumes "list_all answers_iterable conversation"
  shows "build_context_block R conversation = Inr (spec_context_text R conversation)"
  using assms by (simp add: build_context_block_def spec_context_text_def turns_loop_eq)

lemma new_turn_iterable: "answers_iterable (new_turn question answers ranking)"
  by (simp add: answers_iterable_def iterable_def new_turn_def dict_get_def)

lemma list_all_drop: "list_all P xs \<Longrightarrow> list_all P (drop n xs)"
  by (auto simp: list_all_iff dest: in_set_dropD)

lemma window_iterable:
  "list_all answers_iterable H \<Longrightarrow> list_all answers_iterable (conversation_window (Some H))"
  by (simp add: conversation_window_Some list_all_drop)

lemma run_orchestration_succeeds:
  assumes "\<forall>p. \<exists>s. reply E p = Inr s"
    and "build_context_block R (conversation_window (req_conversation request)) = Inr ctx"
  shows "\<exists>res w'. run_orchestration R E request w = (Inr res, w')"
proof -
  have co: "\<exists>s. chat_outcome E p = Inr s" for p
    using assms(1) by (metis chat_outcome_def sum.simps(6))
  obtain question where q: "chat_outcome E (chat_request QUESTION_MODEL build_initial_messages 0 None) = Inr question"
    using co by blast
  define msgs where "msgs = user_message (competitor_prompt ctx question)"
  define rs where "rs = map (\<lambda>m. chat_outcome E (chat_request m msgs 0 None)) COMPETITOR_MODELS"
  have "\<forall>i<length rs. \<exists>x. rs ! i = Inr x"
    using co by (simp add: rs_def)
  then have "rs = map Inr (successes rs)" by (rule all_Inr_map)
  then have g: "gather (finish_order E) rs = Inr (successes rs)"
    by (metis gather_Inr_iff)
  obtain prompt where p: "build_judge_prompt R question (successes rs) (conversation_window (req_conversation request)) = Inr prompt"
    using build_judge_prompt_Inr [OF assms(2)] by blast
  obtain raw where r: "chat_outcome E (chat_request JUDGE_MODEL (judge_messages prompt) 0 (Some ''json'')) = Inr raw"
    using co by blast
  show ?thesis
    using q g p r assms(2)
    by (simp add: run_orchestration_def time_time_def generate_question_eq
        generate_competitor_answers_eq judge_answers_eq Let_def rs_def msgs_def)
qed

lemma run_orchestration_sent:
  "\<exists>calls. sent (snd (run_orchestration R E request w)) = sent w @ calls
      \<and> list_all (\<lambda>p. p_temperature p = 0 \<and> p_max_tokens p = 500) calls"
  by (auto simp: run_orchestration_def time_time_def generate_question_eq
        generate_competitor_answers_eq judge_answers_eq Let_def chat_request_def list_all_iff
      split: prod.splits sum.splits)

lemma turns_loop_append:
  "turns_loop R idx (xs @ ys) ctx =
     (case turns_loop R idx xs ctx of
        Inl e \<Rightarrow> Inl e
      | Inr ctx' \<Rightarrow> turns_loop R (idx + length xs) ys ctx')"
  by (induction xs arbitrary: idx ctx) (simp_all split: sum.splits)

lemma turns_loop_same_block:
  assumes "\<And>i c. turn_block R i t1 c = turn_block R i t2 c"
  shows "turns_loop R idx (before @ t1 # after) ctx = turns_loop R idx (before @ t2 # after) ctx"
  using assms by (simp add: turns_loop_append split: sum.splits)

lemma dict_get_without:
  "dict_get (filter (\<lambda>kv. fst kv \<noteq> k) d) k' dflt = (if k' = k then dflt else dict_get d k' dflt)"
  by (induction d) (auto simp: dict_get_def)

lemma example_block:
  "build_context_block R
      [[(''question'', PStr ''Q1''), (''answers'', PList [PStr ''A1'']), (''ranking'', PList [PInt 1])]]
    = Inr ''Previous Conversation Context:\<newline>\<newline>Turn 1:\<newline>Question: Q1\<newline>Competitor 1: A1\<newline>Ranking: [1]\<newline>\<newline>''"
  by (simp add: build_context_block_def turn_block_def dict_get_def Let_def show_nat.simps
        digit_char_def show_int_def)

lemma example_sublists:
  "sublist ''Turn 1:'' ''Previous Conversation Context:\<newline>\<newline>Turn 1:\<newline>Question: Q1\<newline>Competitor 1: A1\<newline>Ranking: [1]\<newline>\<newline>''"
  "sublist ''Question: Q1'' ''Previous Conversation Context:\<newline>\<newline>Turn 1:\<newline>Question: Q1\<newline>Competitor 1: A1\<newline>Ranking: [1]\<newline>\<newline>''"
  "sublist ''Competitor 1: A1'' ''Previous Conversation Context:\<newline>\<newline>Turn 1:\<newline>Question: Q1\<newline>Competitor 1: A1\<newline>Ranking: [1]\<newline>\<newline>''"
  "sublist ''Ranking: [1]'' ''Previous Conversation Context:\<newline>\<newline>Turn 1:\<newline>Question: Q1\<newline>Competitor 1: A1\<newline>Ranking: [1]\<newline>\<newline>''"
  by (simp_all add: sublist_code)

subsection \<open>The concrete inputs\<close>

lemma demo_turn_iterable: "answers_iterable (demo_turn q)"
  by (simp add: answers_iterable_def iterable_def demo_turn_def dict_get_def)

lemma demo_history_iterable: "list_all answers_iterable demo_history"
  by (simp add: demo_history_def demo_turn_iterable)

lemma demo_env_replies: "\<forall>p. \<exists>s. reply demo_env p = Inr s"
  by (simp add: demo_env_def)

lemma demo_run_succeeds:
  "list_all answers_iterable H \<Longrightarrow>
   \<exists>res w'. run_orchestration R demo_env (request\<lparr>req_conversation := Some H\<rparr>) w = (Inr res, w')"
  using run_orchestration_succeeds [OF demo_env_replies, of R "request\<lparr>req_conversation := Some H\<rparr>"]
    build_context_block_eq [OF window_iterable, of H R]
  by simp

lemma chat_outcome_finish_order [simp]:
  "chat_outcome (E\<lparr>finish_order := order\<rparr>) p = chat_outcome E p"
  by (simp add: chat_outcome_def)

lemma py_strip_plain:
  "py_strip ''answer of mistral:latest'' = ''answer of mistral:latest''"
  "py_strip ''answer of gemma3:1b'' = ''answer of gemma3:1b''"
  "py_strip ''answer of llama3.2'' = ''answer of llama3.2''"
  by (simp_all add: py_strip_def py_lstrip_def py_rstrip_def py_whitespace_def leading_space_def)

lemma demo_window_block:
  "build_context_block demo_runtime (conversation_window (req_conversation demo_request))
     = Inr (spec_context_text demo_runtime (conversation_window (req_conversation demo_request)))"
  by (simp add: demo_request_def build_context_block_eq window_iterable demo_history_iterable)

subsection \<open>Rounding\<close>

lemma round_half_even_bounds:
  "y - 1 / 2 \<le> of_int (round_half_even y) \<and> of_int (round_half_even y) \<le> y + 1 / 2"
proof -
  have lo: "of_int \<lfloor>y\<rfloor> \<le> y" and hi: "y < of_int \<lfloor>y\<rfloor> + 1" by linarith+
  consider (below) "y - of_int \<lfloor>y\<rfloor> < 1 / 2" | (above) "1 / 2 < y - of_int \<lfloor>y\<rfloor>"
    | (tie) "y - of_int \<lfloor>y\<rfloor> = 1 / 2"
    by linarith
  then show ?thesis
  proof cases
    case below
    then have "round_half_even y = \<lfloor>y\<rfloor>" by (simp add: round_half_even_def Let_def)
    then show ?thesis using lo below by linarith
  next
    case above
    then have "round_half_even y = \<lfloor>y\<rfloor> + 1" by (simp add: round_half_even_def Let_def)
    then have "of_int (round_half_even y) = (of_int \<lfloor>y\<rfloor> :: rat) + 1" by simp
    then show ?thesis using hi above by linarith
  next
    case tie
    then have "round_half_even y = \<lfloor>y\<rfloor> \<or> round_half_even y = \<lfloor>y\<rfloor> + 1"
      by (simp add: round_half_even_def Let_def)
    then have "of_int (round_half_even y) = (of_int \<lfloor>y\<rfloor> :: rat)
        \<or> of_int (round_half_even y) = (of_int \<lfloor>y\<rfloor> :: rat) + 1" by auto
    then show ?thesis using tie by linarith
  qed
qed

lemma exponent_le:
  assumes "x \<noteq> 0"
  shows "2 powi exponent x \<le> \<bar>x\<bar>"
proof -
  obtain p q where pq: "quotient_of \<bar>x\<bar> = (p, q)" by (cases "quotient_of \<bar>x\<bar>")
  then have q: "0 < q" by (rule quotient_of_denom_pos)
  from pq have x: "\<bar>x\<bar> = of_int p / of_int q" by (rule quotient_of_div)
  have "0 < \<bar>x\<bar>" using assms by simp
  with x q have p: "0 < p" by (simp add: zero_less_divide_iff)
  define e where "e = bitlen p - bitlen q"
  have lp: "1 \<le> bitlen p" using p by (subst compute_bitlen) (simp add: bitlen_nonneg)
  have "2 ^ nat (bitlen p - 1) \<le> p" using bitlen_bounds [OF p] by simp
  then have "(of_int (2 ^ nat (bitlen p - 1)) :: rat) \<le> of_int p" by (simp only: of_int_le_iff)
  then have bp: "(2::rat) powi (bitlen p - 1) \<le> of_int p" using lp by (simp add: power_int_def)
  have "q < 2 ^ nat (bitlen q)" using bitlen_bounds [OF q] by simp
  then have "(of_int q :: rat) < of_int (2 ^ nat (bitlen q))" by (simp only: of_int_less_iff)
  then have bq: "(of_int q :: rat) \<le> 2 powi bitlen q" by (simp add: power_int_def bitlen_nonneg)
  have "(2::rat) powi (e - 1) = 2 powi (bitlen p - 1) / 2 powi bitlen q"
    unfolding e_def by (subst power_int_diff [symmetric]) (simp_all add: algebra_simps)
  also have "\<dots> \<le> of_int p / of_int q"
    using bp bq p q by (intro frac_le) simp_all
  finally have half: "(2::rat) powi (e - 1) \<le> \<bar>x\<bar>" by (simp only: x)
  have "exponent x = (if (2::rat) powi e \<le> \<bar>x\<bar> then e else e - 1)"
    by (simp add: exponent_def pq e_def Let_def)
  with half show ?thesis by simp
qed

lemma to_double_error:
  assumes "\<bar>x\<bar> \<le> 2 ^ 33"
  shows "\<bar>to_double x - x\<bar> \<le> 1 / 2 ^ 20"
proof (cases "x = 0")
  case True
  then show ?thesis by (simp add: to_double_def)
next
  case False
  define u where "u = quantum x"
  have upos: "0 < u" by (simp add: u_def quantum_def zero_less_power_int)
  have "exponent x \<le> 33"
  proof (rule ccontr)
    assume "\<not> exponent x \<le> 33"
    then have "(2::rat) powi 34 \<le> 2 powi exponent x" by (intro power_int_increasing) simp_all
    also have "\<dots> \<le> \<bar>x\<bar>" using False by (rule exponent_le)
    finally show False using assms by simp
  qed
  then have "(2::rat) powi max (exponent x - 52) (- 1074) \<le> 2 powi (- 19)"
    by (intro power_int_increasing) simp_all
  then have "u \<le> 1 / 2 ^ 19" by (simp add: u_def quantum_def power_int_minus_divide)
  moreover have "\<bar>of_int (round_half_even (x / u)) * u - x\<bar> \<le> u / 2"
  proof -
    have "\<bar>of_int (round_half_even (x / u)) - x / u\<bar> \<le> 1 / 2"
      using round_half_even_bounds [of "x / u"] by linarith
    then have "\<bar>of_int (round_half_even (x / u)) - x / u\<bar> * u \<le> 1 / 2 * u"
      using upos by (intro mult_right_mono) simp_all
    moreover have "(of_int (round_half_even (x / u)) - x / u) * u
        = of_int (round_half_even (x / u)) * u - x"
      using upos by (simp add: left_diff_distrib)
    then have "\<bar>of_int (round_half_even (x / u)) * u - x\<bar>
        = \<bar>of_int (round_half_even (x / u)) - x / u\<bar> * \<bar>u\<bar>"
      by (metis abs_mult)
    then have "\<bar>of_int (round_half_even (x / u)) - x / u\<bar> * u
        = \<bar>of_int (round_half_even (x / u)) * u - x\<bar>"
      using upos by simp
    ultimately show ?thesis by simp
  qed
  ultimately show ?thesis using False by (simp add: to_double_def u_def)
qed

lemma float_sub_error:
  assumes "\<bar>a - b\<bar> \<le> 2 ^ 33"
  shows "\<bar>float_sub a b - (a - b)\<bar> \<le> 1 / 2 ^ 20"
  using to_double_error [OF assms] by (simp add: float_sub_def)

lemma py_round_3_error:
  assumes "\<bar>x\<bar> \<le> 2 ^ 32 + 1"
  shows "\<bar>py_round x 3 - x\<bar> \<le> 1 / 2000 + 1 / 2 ^ 20"
proof -
  define y where "y = (of_int (round_half_even (x * 1000)) :: rat) / 1000"
  from round_half_even_bounds [of "x * 1000"]
  have "x * 1000 - 1 / 2 \<le> of_int (round_half_even (x * 1000))"
       "of_int (round_half_even (x * 1000)) \<le> x * 1000 + 1 / 2" by simp_all
  then have "x - 1 / 2000 \<le> y \<and> y \<le> x + 1 / 2000" by (simp add: y_def field_simps)
  then have y: "\<bar>y - x\<bar> \<le> 1 / 2000" by linarith
  have "(2::rat) ^ 32 + 1 = 4294967297" "(2::rat) ^ 33 = 8589934592" by simp_all
  with assms y have "\<bar>y\<bar> \<le> 2 ^ 33" by linarith
  then have "\<bar>to_double y - y\<bar> \<le> 1 / 2 ^ 20" by (rule to_double_error)
  moreover have "py_round x 3 = to_double y" by (simp add: py_round_def y_def)
  ultimately show ?thesis using y by linarith
qed

lemma reported_duration_error:
  assumes "0 \<le> a" and "a \<le> b" and "b \<le> 2 ^ 32"
  shows "\<bar>py_round (float_sub b a) 3 - (b - a)\<bar> \<le> 1 / 2000 + 2 / 2 ^ 20"
proof -
  have "\<bar>b - a\<bar> \<le> 2 ^ 33" using assms by simp
  then have s: "\<bar>float_sub b a - (b - a)\<bar> \<le> 1 / 2 ^ 20" by (rule float_sub_error)
  have "(2::rat) ^ 32 = 4294967296" "1 / (2::rat) ^ 20 = 1 / 1048576" by simp_all
  with s have "\<bar>float_sub b a\<bar> \<le> 2 ^ 32 + 1" using assms by linarith
  then have "\<bar>py_round (float_sub b a) 3 - float_sub b a\<bar> \<le> 1 / 2000 + 1 / 2 ^ 20"
    by (rule py_round_3_error)
  with s show ?thesis by linarith
qed

lemma demo_durations:
  "clock demo_env (ticks demo_world + 2) - clock demo_env (ticks demo_world + 1) = 1049345 / 1048576"
  "clock demo_env (ticks demo_world + 4) - clock demo_env (ticks demo_world + 3) = 1049345 / 1048576"
  "clock demo_env (ticks demo_world + 6) - clock demo_env (ticks demo_world + 5) = 1049345 / 1048576"
  "clock demo_env (ticks demo_world + 7) - clock demo_env (ticks demo_world) = 3148039 / 1048576"
  by (simp_all add: demo_env_def demo_world_def)

lemma demo_double_values:
  "to_double (1049345 / 1048576) = 1049345 / 1048576"
  "to_double (3148039 / 1048576) = 3148039 / 1048576"
  by code_simp+

lemma demo_float_durations:
  "float_sub (clock demo_env (ticks demo_world + 2)) (clock demo_env (ticks demo_world + 1))
     = 1049345 / 1048576"
  "float_sub (clock demo_env (ticks demo_world + 4)) (clock demo_env (ticks demo_world + 3))
     = 1049345 / 1048576"
  "float_sub (clock demo_env (ticks demo_world + 6)) (clock demo_env (ticks demo_world + 5))
     = 1049345 / 1048576"
  "float_sub (clock demo_env (ticks demo_world + 7)) (clock demo_env (ticks demo_world))
     = 3148039 / 1048576"
  by (simp_all only: float_sub_def demo_durations demo_double_values)

text \<open>The eight readings of a run that starts at the first are doubles.\<close>

lemma demo_clock_doubles:
  "list_all (\<lambda>k. to_double (clock demo_env k) = clock demo_env k) [0..<8]"
  by code_simp

text \<open>The doubles nearest to 1.001 and to 3.002.\<close>

lemma demo_round_values:
  "py_round (1049345 / 1048576) 3 = 2254051613498933 / 2251799813685248"
  "py_round (3148039 / 1048576) 3 = 3379951520341557 / 1125899906842624"
  by code_simp+

lemma demo_clock_monotone: "clock demo_env k \<le> clock demo_env (k + 1)"
proof -
  have "k div 2 \<le> (k + 1) div 2" by (simp add: div_le_mono)
  then have "(of_nat (k div 2) :: rat) \<le> of_nat ((k + 1) div 2)" by (simp only: of_nat_le_iff)
  moreover have "(of_nat k :: rat) \<le> of_nat (k + 1)" by simp
  ultimately have "(of_nat (k div 2) :: rat) * (4099 / 4096) + of_nat k / 1048576
      \<le> of_nat ((k + 1) div 2) * (4099 / 4096) + of_nat (k + 1) / 1048576"
    by (intro add_mono mult_right_mono divide_right_mono) simp_all
  then show ?thesis by (simp add: demo_env_def)
qed

subsection \<open>The decoder reads forward\<close>

text \<open>Every value read leaves a shorter text, so the length tests in \<open>array_items\<close> and
  \<open>object_members\<close> never fail: both satisfy the equations without them.\<close>

lemma skip_space_le: "length (skip_space s) \<le> length s"
  by (simp add: skip_space_def length_dropWhile_le)

lemma skip_space_Cons_less: "skip_space r = d # r1 \<Longrightarrow> length r1 < length r"
  using skip_space_le [of r] by simp

lemma scanstring_shorter: "scanstring acc s = Inr (str, r) \<Longrightarrow> length r < length s"
proof (induction acc s arbitrary: str r rule: scanstring.induct)
  case (1 acc)
  then show ?case by simp
next
  case (2 acc c s)
  show ?case
    using "2.prems" "2.IH"
    by (fastforce simp: less_Suc_eq_le split: if_splits list.splits option.splits
          dest!: order.strict_implies_order)
qed

lemma match_number_shorter: "match_number R s = Inr (v, r) \<Longrightarrow> length r < length s"
  by (auto simp: match_number_def Let_def split: list.splits if_splits)


lemma decoder_shorter:
  "\<forall>v r. scan_once R s = Inr (v, r) \<longrightarrow> length r < length s"
  "\<forall>xs r. array_items R acc s1 = Inr (xs, r) \<longrightarrow> length r < length s1"
  "\<forall>d r. object_members R acc2 s2 = Inr (d, r) \<longrightarrow> length r < length s2"
proof (induction R s and R acc s1 and R acc2 s2 rule: scan_once_array_items_object_members.induct)
  case (1 R)
  show ?case by simp
next
  case (2 R c s)
  show ?case
  proof (intro allI impI)
    fix v r
    assume run: "scan_once R (c # s) = Inr (v, r)"
    have le: "length (skip_space s) \<le> length s" by (rule skip_space_le)
    consider (str) "c = CHR 0x22" | (obj) "c \<noteq> CHR 0x22" "c = CHR ''{''"
      | (arr) "c \<noteq> CHR 0x22" "c \<noteq> CHR ''{''" "c = CHR ''[''"
      | (other) "c \<noteq> CHR 0x22" "c \<noteq> CHR ''{''" "c \<noteq> CHR ''[''"
      by blast
    then show "length r < length (c # s)"
    proof cases
      case str
      with run obtain t where "scanstring [] s = Inr (t, r)"
        by (auto split: sum.splits)
      then show ?thesis using scanstring_shorter by fastforce
    next
      case obj
      show ?thesis
      proof (cases "take 1 (skip_space s) = ''}''")
        case True
        with run obj le show ?thesis by auto
      next
        case False
        with run obj obtain d where m: "object_members R [] (skip_space s) = Inr (d, r)"
          by (auto split: sum.splits)
        from "2.IH"(1) [OF obj(1) obj(2) False] m
        have "length r < length (skip_space s)" by blast
        with le show ?thesis by simp
      qed
    next
      case arr
      show ?thesis
      proof (cases "take 1 (skip_space s) = '']''")
        case True
        with run arr le show ?thesis by auto
      next
        case False
        with run arr obtain xs where m: "array_items R [] (skip_space s) = Inr (xs, r)"
          by (auto split: sum.splits)
        from "2.IH"(2) [OF arr(1) arr(2) arr(3) False] m
        have "length r < length (skip_space s)" by blast
        with le show ?thesis by simp
      qed
    next
      case other
      with run have "(\<exists>n. r = drop n s) \<or> match_number R (c # s) = Inr (v, r)"
        by (auto split: if_splits)
      then show ?thesis
        using match_number_shorter [of R "c # s" v r] by auto
    qed
  qed
next
  case (3 R acc s)
  show ?case
  proof (intro allI impI)
    fix xs r
    assume run: "array_items R acc s = Inr (xs, r)"
    then obtain v r0 where v: "scan_once R s = Inr (v, r0)"
      by (subst (asm) array_items.simps) (auto split: sum.splits)
    with "3.IH"(1) have r0: "length r0 < length s" by blast
    from run v obtain d r1 where d: "skip_space r0 = d # r1"
      by (subst (asm) array_items.simps) (auto split: list.splits)
    then have r1: "length r1 < length r0" by (rule skip_space_Cons_less)
    show "length r < length s"
    proof (cases "d = CHR '']''")
      case True
      with run v d have "r = r1" by (subst (asm) array_items.simps) simp
      with r0 r1 show ?thesis by simp
    next
      case False
      with run v d have comma: "\<not> d \<noteq> CHR '',''" and guard: "length (skip_space r1) < length s"
        and rec: "array_items R (acc @ [v]) (skip_space r1) = Inr (xs, r)"
        by (subst (asm) array_items.simps; simp split: if_splits)+
      from "3.IH"(2) [OF v refl d False comma guard] rec
      have "length r < length (skip_space r1)" by blast
      with guard show ?thesis by simp
    qed
  qed
next
  case (4 R acc s)
  show ?case
  proof (intro allI impI)
    fix dd r
    assume run: "object_members R acc s = Inr (dd, r)"
    then obtain q s0 where s: "s = q # s0" and q: "\<not> q \<noteq> CHR 0x22"
      by (subst (asm) object_members.simps) (auto split: list.splits if_splits)
    from run s q obtain key r0 where key: "scanstring [] s0 = Inr (key, r0)"
      by (subst (asm) object_members.simps) (auto split: sum.splits)
    from run s q key obtain col r1 where col: "skip_space r0 = col # r1" and colon: "\<not> col \<noteq> CHR '':''"
      by (subst (asm) object_members.simps) (auto split: list.splits if_splits)
    from run s q key col colon have guard: "\<not> \<not> length (skip_space r1) < length s"
      by (subst (asm) object_members.simps) (auto split: if_splits)
    from run s q key col colon guard obtain v r2 where v: "scan_once R (skip_space r1) = Inr (v, r2)"
      by (subst (asm) object_members.simps) (auto split: sum.splits)
    from "4.IH"(1) [OF s q key refl col colon guard] v
    have r2: "length r2 < length (skip_space r1)" by blast
    from run s q key col colon guard v obtain d r3 where d: "skip_space r2 = d # r3"
      by (subst (asm) object_members.simps) (auto split: list.splits)
    then have r3: "length r3 < length r2" by (rule skip_space_Cons_less)
    show "length r < length s"
    proof (cases "d = CHR ''}''")
      case True
      with run s q key col colon guard v d have "r = r3"
        by (subst (asm) object_members.simps) simp
      with r2 r3 guard show ?thesis by simp
    next
      case False
      with run s q key col colon guard v d have comma: "\<not> d \<noteq> CHR '',''"
        and guard2: "length (skip_space r3) < length s"
        and rec: "object_members R (dict_set acc key v) (skip_space r3) = Inr (dd, r)"
        by (subst (asm) object_members.simps; simp split: if_splits)+
      from "4.IH"(2) [OF s q key refl col colon guard v refl d False comma guard2] rec
      have "length r < length (skip_space r3)" by blast
      with guard2 show ?thesis by simp
    qed
  qed
qed


lemma array_items_unguarded:
  "array_items R acc s =
     (case scan_once R s of
        Inl e \<Rightarrow> Inl e
      | Inr (v, r) \<Rightarrow>
          (case skip_space r of
             [] \<Rightarrow> Inl JSONDecodeError
           | d # r1 \<Rightarrow>
               if d = CHR '']'' then Inr (acc @ [v], r1)
               else if d \<noteq> CHR '','' then Inl JSONDecodeError
               else array_items R (acc @ [v]) (skip_space r1)))"
proof (cases "scan_once R s")
  case (Inl e)
  then show ?thesis
    by (subst array_items.simps) (simp del: array_items.simps)
next
  case (Inr p)
  obtain v r where p: "p = (v, r)" by (cases p)
  with Inr have run: "scan_once R s = Inr (v, r)" by simp
  then have r: "length r < length s" using decoder_shorter(1) by blast
  show ?thesis
  proof (cases "skip_space r")
    case Nil
    with run show ?thesis
      by (subst array_items.simps) (simp del: array_items.simps)
  next
    case (Cons d r1)
    then have "length r1 < length r" by (rule skip_space_Cons_less)
    with r skip_space_le [of r1] have "length (skip_space r1) < length s" by simp
    with run Cons show ?thesis
      by (subst array_items.simps) (simp del: array_items.simps)
  qed
qed

lemma object_members_unguarded:
  "object_members R acc s =
     (case s of
        [] \<Rightarrow> Inl JSONDecodeError
      | q # s0 \<Rightarrow>
          if q \<noteq> CHR 0x22 then Inl JSONDecodeError
          else
            (case scanstring [] s0 of
               Inl e \<Rightarrow> Inl e
             | Inr (key, r) \<Rightarrow>
                 (case skip_space r of
                    [] \<Rightarrow> Inl JSONDecodeError
                  | col # r1 \<Rightarrow>
                      if col \<noteq> CHR '':'' then Inl JSONDecodeError
                      else
                        (case scan_once R (skip_space r1) of
                           Inl e \<Rightarrow> Inl e
                         | Inr (v, r2) \<Rightarrow>
                             (case skip_space r2 of
                                [] \<Rightarrow> Inl JSONDecodeError
                              | d # r3 \<Rightarrow>
                                  if d = CHR ''}'' then Inr (dict_set acc key v, r3)
                                  else if d \<noteq> CHR '','' then Inl JSONDecodeError
                                  else object_members R (dict_set acc key v) (skip_space r3))))))"
proof (cases s)
  case Nil
  then show ?thesis
    by (subst object_members.simps) (simp del: object_members.simps)
next
  case s: (Cons q s0)
  show ?thesis
  proof (cases "scanstring [] s0")
    case (Inl e)
    with s show ?thesis
      by (subst object_members.simps) (simp del: object_members.simps)
  next
    case (Inr p)
    obtain key r where p: "p = (key, r)" by (cases p)
    with Inr have key: "scanstring [] s0 = Inr (key, r)" by simp
    then have r: "length r < length s0" by (rule scanstring_shorter)
    show ?thesis
    proof (cases "skip_space r")
      case Nil
      with s key show ?thesis
        by (subst object_members.simps) (simp del: object_members.simps)
    next
      case col: (Cons col r1)
      then have "length r1 < length r" by (rule skip_space_Cons_less)
      with r s skip_space_le [of r1] have g1: "length (skip_space r1) < length s" by simp
      show ?thesis
      proof (cases "scan_once R (skip_space r1)")
        case (Inl e)
        with s key col g1 show ?thesis
          by (subst object_members.simps) (simp del: object_members.simps)
      next
        case (Inr p2)
        obtain v r2 where p2: "p2 = (v, r2)" by (cases p2)
        with Inr have v: "scan_once R (skip_space r1) = Inr (v, r2)" by simp
        then have r2: "length r2 < length (skip_space r1)" using decoder_shorter(1) by blast
        show ?thesis
        proof (cases "skip_space r2")
          case Nil
          with s key col g1 v show ?thesis
            by (subst object_members.simps) (simp del: object_members.simps)
        next
          case d: (Cons d r3)
          then have "length r3 < length r2" by (rule skip_space_Cons_less)
          with r2 g1 skip_space_le [of r3] have g2: "length (skip_space r3) < length s" by simp
          with s key col g1 v d show ?thesis
            by (subst object_members.simps) (simp del: object_members.simps)
        qed
      qed
    qed
  qed
qed

subsection \<open>The ranking parser\<close>

lemma py_find_takeWhile:
  "c \<in> set s \<Longrightarrow> py_find s c = int (length (takeWhile (\<lambda>x. x \<noteq> c) s))"
  by (induction s) (auto simp: Let_def)

lemma py_rfind_absent: "c \<notin> set s \<Longrightarrow> py_rfind s c = - 1"
  by (induction s) (auto simp: Let_def)

lemma takeWhile_neq_absent: "c \<notin> set xs \<Longrightarrow> takeWhile (\<lambda>x. x \<noteq> c) xs = xs"
  by (induction xs) auto

lemma takeWhile_neq_append_absent:
  "c \<notin> set xs \<Longrightarrow> takeWhile (\<lambda>x. x \<noteq> c) (xs @ ys) = xs @ takeWhile (\<lambda>x. x \<noteq> c) ys"
  by (induction xs) auto

lemma takeWhile_neq_append_present:
  "c \<in> set xs \<Longrightarrow> takeWhile (\<lambda>x. x \<noteq> c) (xs @ ys) = takeWhile (\<lambda>x. x \<noteq> c) xs"
  by (induction xs) auto

lemma takeWhile_length_less: "c \<in> set s \<Longrightarrow> length (takeWhile (\<lambda>x. x \<noteq> c) s) < length s"
  by (induction s) auto

lemma py_rfind_takeWhile:
  "c \<in> set s \<Longrightarrow>
   py_rfind s c = int (length s) - 1 - int (length (takeWhile (\<lambda>x. x \<noteq> c) (rev s)))"
proof (induction s)
  case Nil
  then show ?case by simp
next
  case (Cons x s)
  show ?case
  proof (cases "c \<in> set s")
    case True
    then have tw: "takeWhile (\<lambda>x. x \<noteq> c) (rev s @ [x]) = takeWhile (\<lambda>x. x \<noteq> c) (rev s)"
      by (simp add: takeWhile_neq_append_present)
    have "length (takeWhile (\<lambda>x. x \<noteq> c) (rev s)) < length s"
      using True takeWhile_length_less [of c "rev s"] by simp
    with True Cons.IH tw show ?thesis by (simp add: Let_def)
  next
    case False
    with Cons.prems have xc: "x = c" by simp
    from False have "takeWhile (\<lambda>x. x \<noteq> c) (rev s @ [c]) = rev s"
      by (simp add: takeWhile_neq_append_absent)
    with False xc show ?thesis by (simp add: py_rfind_absent Let_def)
  qed
qed

lemma brace_slice_eq:
  assumes a: "a \<in> set s" and b: "b \<in> set s"
  shows "py_slice s (py_find s a) (py_rfind s b + 1)
           = rev (dropWhile (\<lambda>x. x \<noteq> b) (rev (dropWhile (\<lambda>x. x \<noteq> a) s)))"
proof -
  define i where "i = length (takeWhile (\<lambda>x. x \<noteq> a) s)"
  define k where "k = length (takeWhile (\<lambda>x. x \<noteq> b) (rev s))"
  define t where "t = dropWhile (\<lambda>x. x \<noteq> a) s"
  define k' where "k' = length (takeWhile (\<lambda>x. x \<noteq> b) (rev t))"
  have i: "i < length s" using a by (simp add: i_def takeWhile_length_less)
  have k: "k < length s" using b takeWhile_length_less [of b "rev s"] by (simp add: k_def)
  have t: "t = drop i s" by (simp add: t_def i_def dropWhile_eq_drop)
  have lt: "length t = length s - i" by (simp add: t)
  have find: "py_find s a = int i" using a by (simp add: py_find_takeWhile i_def)
  have rfind: "py_rfind s b + 1 = int (length s - k)"
    using b k by (simp add: py_rfind_takeWhile k_def)
  have lhs: "py_slice s (py_find s a) (py_rfind s b + 1) = take (length s - k - i) t"
    using i by (simp add: py_slice_def slice_bound_def find rfind t)
  have rhs: "rev (dropWhile (\<lambda>x. x \<noteq> b) (rev t)) = take (length t - k') t"
    by (simp add: dropWhile_eq_drop k'_def rev_drop)
  have rs: "rev s = rev t @ rev (take i s)"
    by (metis append_take_drop_id rev_append t)
  have "take (length s - k - i) t = take (length t - k') t"
  proof (cases "b \<in> set t")
    case True
    then have "takeWhile (\<lambda>x. x \<noteq> b) (rev t @ rev (take i s)) = takeWhile (\<lambda>x. x \<noteq> b) (rev t)"
      by (simp add: takeWhile_neq_append_present)
    then have "k = k'" by (simp add: k_def k'_def rs)
    then have "length s - k - i = length t - k'" using lt by linarith
    then show ?thesis by simp
  next
    case False
    then have tw: "takeWhile (\<lambda>x. x \<noteq> b) (rev t) = rev t"
      by (simp add: takeWhile_neq_absent)
    have "k' = length t" unfolding k'_def tw by simp
    moreover from False have "takeWhile (\<lambda>x. x \<noteq> b) (rev t @ rev (take i s))
        = rev t @ takeWhile (\<lambda>x. x \<noteq> b) (rev (take i s))"
      by (simp add: takeWhile_neq_append_absent)
    then have "length t \<le> k" by (simp add: k_def rs)
    ultimately have "length s - k - i = 0" and "length t - k' = 0" using lt by linarith+
    then show ?thesis by simp
  qed
  with lhs rhs show ?thesis by (simp add: t_def)
qed

lemma parse_ranking_refines:
  "parse_ranking R raw = spec_parse_ranking R raw"
proof -
  define t where "t = py_strip raw"
  define sl where "sl = (if CHR ''{'' \<in> set t \<and> CHR ''}'' \<in> set t
                 then py_slice t (py_find t CHR ''{'') (py_rfind t CHR ''}'' + 1) else t)"
  have sl: "sl = (if CHR ''{'' \<in> set t \<and> CHR ''}'' \<in> set t then spec_brace_slice t else t)"
    by (simp add: sl_def spec_brace_slice_def brace_slice_eq)
  have code: "parse_ranking R raw =
      (case json_loads R sl of
         Inl e \<Rightarrow> []
       | Inr parsed \<Rightarrow>
           (case parsed of
              PDict d \<Rightarrow> (case dict_get d ''results'' (PList []) of PList ranking \<Rightarrow> ranking | _ \<Rightarrow> [])
            | _ \<Rightarrow> []))"
    by (simp add: parse_ranking_def ranking_try_def Let_def t_def sl_def
          split: sum.splits pyval.splits)
  have spec: "spec_parse_ranking R raw =
      (case json_loads R sl of
           Inr (PDict obj) \<Rightarrow>
             (case map_of obj ''results'' of
                Some (PList xs) \<Rightarrow> xs
              | _ \<Rightarrow> [])
         | _ \<Rightarrow> [])"
    by (simp add: spec_parse_ranking_def Let_def t_def sl)
  show ?thesis
    unfolding code spec
    by (simp add: dict_get_def split: sum.splits pyval.splits option.splits)
qed

lemmas parser_eval =
  parse_ranking_def ranking_try_def py_strip_def py_lstrip_def py_rstrip_def py_whitespace_def
  leading_space_def py_slice_def slice_bound_def json_loads_def utf8_bom_def skip_space_def
  is_json_space_def match_number_def is_digit_def fraction_part_def exponent_part_def
  decimal_value_def digit_value_def dict_get_def simple_escape_def

lemma parse_example_1:
  \<open>parse_ranking R ''blah {"results":[2,1,3]} trailing'' = [PInt 2, PInt 1, PInt 3]\<close>
  by (simp add: parser_eval)

lemma parse_example_2: \<open>parse_ranking R ''no json here'' = []\<close>
  by (simp add: parser_eval)

lemma parse_example_3: \<open>parse_ranking R ''{"results": "not-a-list"}'' = []\<close>
  by (simp add: parser_eval)

lemma parse_example_4: \<open>parse_ranking R '''' = []\<close>
  by (simp add: parser_eval)

lemma parse_example_5:
  \<open>parse_ranking R ''{"results": ["first", null]}'' = [PStr ''first'', PNone]\<close>
  by (simp add: parser_eval)

subsection \<open>The concrete runs\<close>

lemma chat_outcome_Inr_iff:
  "chat_outcome E p = Inr a \<longleftrightarrow> (\<exists>raw. reply E p = Inr raw \<and> a = py_strip raw)"
  by (auto simp: chat_outcome_def split: sum.splits)

lemma py_strip_padded:
  "py_strip ''  mistral:latest says hi\<newline>'' = ''mistral:latest says hi''"
  "py_strip ''  gemma3:1b says hi\<newline>'' = ''gemma3:1b says hi''"
  "py_strip ''  llama3.2 says hi\<newline>'' = ''llama3.2 says hi''"
  by (simp_all add: py_strip_def py_lstrip_def py_rstrip_def py_whitespace_def leading_space_def)

lemma example_prompt:
  "py_strip (''\<newline>''
       @ ''Previous Conversation Context:\<newline>\<newline>Turn 1:\<newline>Question: Q1\<newline>Competitor 1: A1\<newline>Ranking: [1]\<newline>\<newline>''
       @ ''\<newline>\<newline>Current Question:\<newline>'' @ ''Why?''
       @ ''\<newline>\<newline>Provide your best possible answer considering the previous context if relevant.\<newline>'')
   = ''Previous Conversation Context:\<newline>\<newline>Turn 1:\<newline>Question: Q1\<newline>Competitor 1: A1\<newline>Ranking: [1]\<newline>\<newline>\<newline>\<newline>Current Question:\<newline>Why?\<newline>\<newline>Provide your best possible answer considering the previous context if relevant.''"
  by (simp add: py_strip_def py_lstrip_def py_rstrip_def py_whitespace_def leading_space_def)

lemma demo_run_fields:
  assumes "run_orchestration R demo_env request w = (Inr res, w')"
  shows "res_question res = ''answer of llama3.2''"
    and "res_competitors res = [''mistral:latest'', ''gemma3:1b'', ''llama3.2'']"
    and "res_answers res = [''answer of mistral:latest'', ''answer of gemma3:1b'', ''answer of llama3.2'']"
    and "res_ranking res = [PInt 3, PInt 1, PInt 2]"
proof -
  have plain: "chat_outcome demo_env (chat_request m msgs 0 None) = Inr (py_strip (''answer of '' @ m))"
    for m msgs
    by (simp add: chat_outcome_def demo_env_def chat_request_def)
  have json: \<open>chat_outcome demo_env (chat_request m msgs 0 (Some ''json''))
      = Inr (py_strip ''{"results": [3, 1, 2]}'')\<close> for m msgs
    by (simp add: chat_outcome_def demo_env_def chat_request_def)
  have parsed: \<open>parse_ranking R (py_strip ''{"results": [3, 1, 2]}'') = [PInt 3, PInt 1, PInt 2]\<close>
    by (simp add: parser_eval)
  from run_orchestration_Inr [OF assms] obtain question answers ranking ctx prompt raw
    where q: "chat_outcome demo_env (chat_request QUESTION_MODEL build_initial_messages 0 None) = Inr question"
      and a: "map (\<lambda>m. chat_outcome demo_env
                  (chat_request m (user_message (competitor_prompt ctx question)) 0 None))
               COMPETITOR_MODELS = map Inr answers"
      and r: "chat_outcome demo_env (chat_request JUDGE_MODEL (judge_messages prompt) 0 (Some ''json'')) = Inr raw"
      and rk: "ranking = parse_ranking R raw"
      and res: "res_question res = question" "res_competitors res = COMPETITOR_MODELS"
        "res_answers res = answers" "res_ranking res = ranking"
    by (elim exE conjE) simp
  from q show "res_question res = ''answer of llama3.2''"
    by (simp add: res plain QUESTION_MODEL_def py_strip_plain)
  show "res_competitors res = [''mistral:latest'', ''gemma3:1b'', ''llama3.2'']"
    by (simp add: res COMPETITOR_MODELS_def)
  from a have "map Inr answers
      = ([Inr ''answer of mistral:latest'', Inr ''answer of gemma3:1b'', Inr ''answer of llama3.2'']
          :: (py_exn + string) list)"
    by (simp add: plain COMPETITOR_MODELS_def py_strip_plain)
  then show "res_answers res = [''answer of mistral:latest'', ''answer of gemma3:1b'', ''answer of llama3.2'']"
    by (auto simp: res map_eq_Cons_conv)
  from r rk show "res_ranking res = [PInt 3, PInt 1, PInt 2]"
    by (auto simp: res json parsed)
qed

lemma demo_window:
  "drop (length demo_history - 5) demo_history
     = [demo_turn ''Q2'', demo_turn ''Q3'', demo_turn ''Q4'', demo_turn ''Q5'', demo_turn ''Q6'']"
  by (simp add: demo_history_def)

section \<open>The claims\<close>

text \<open>\<^bold>\<open>C1.\<close> On every reply text the parser of \<^verbatim>\<open>judge_answers\<close> returns what the
  specification's algorithm returns: trim, keep the text from the first \<^verbatim>\<open>{\<close> to the last
  \<^verbatim>\<open>}\<close> when both occur, decode, read \<^verbatim>\<open>results\<close>, and give the empty sequence when that
  is not a list or a step fails. It is a total function into sequences, so it never
  raises. On the four texts of the specification it returns \<^verbatim>\<open>[2,1,3]\<close>, \<^verbatim>\<open>[]\<close>, \<^verbatim>\<open>[]\<close>
  and \<^verbatim>\<open>[]\<close>.\<close>

theorem C1_ranking_parser:
  \<open>(\<forall>raw. parse_ranking R raw = spec_parse_ranking R raw)
   \<and> parse_ranking R ''blah {"results":[2,1,3]} trailing'' = [PInt 2, PInt 1, PInt 3]
   \<and> parse_ranking R ''no json here'' = []
   \<and> parse_ranking R ''{"results": "not-a-list"}'' = []
   \<and> parse_ranking R '''' = []\<close>
  using parse_ranking_refines [of R] parse_example_1 [of R] parse_example_2 [of R]
    parse_example_3 [of R] parse_example_4 [of R]
  by blast

text \<open>A reply with a second pair of braces after the object, and the first example.\<close>

theorem C1_ranking_parser_witness:
  \<open>parse_ranking demo_runtime ''Sure: {"results": [1, 3, 2]} {done}''
     = spec_parse_ranking demo_runtime ''Sure: {"results": [1, 3, 2]} {done}''
   \<and> parse_ranking demo_runtime ''blah {"results":[2,1,3]} trailing'' = [PInt 2, PInt 1, PInt 3]\<close>
  using C1_ranking_parser [of demo_runtime] by blast

text \<open>\<^bold>\<open>C2.\<close> When the fan-out returns, the competitors are the configured list of three
  models and there are as many answers as competitors. One message list is shared by all
  calls: a single \<^verbatim>\<open>user\<close> message whose content is the stripped prompt, made of the context
  block, \<^verbatim>\<open>Current Question:\<close>, the question and the closing instruction. The body posted
  for a model holds that model, the shared messages, temperature 0, 500 tokens and no
  format; the bodies are posted in the order of the model list, and the answer at each
  position is the stripped reply of the backend to the body of the model at that
  position. The order in which the calls complete plays no part: under every other
  completion order the fan-out returns the same.\<close>

theorem C2_fan_out_alignment:
  assumes "generate_competitor_answers R E question conversation w
             = (Inr (competitors, answers, latency), w')"
  shows "competitors = [''mistral:latest'', ''gemma3:1b'', ''llama3.2'']
     \<and> length answers = length competitors
     \<and> (\<exists>context_block.
           build_context_block R conversation = Inr context_block
           \<and> (let shared =
                     [\<lparr>msg_role = ''user'',
                       msg_content =
                         py_strip
                           (''\<newline>'' @ context_block @ ''\<newline>\<newline>Current Question:\<newline>'' @ question
                            @ ''\<newline>\<newline>Provide your best possible answer considering the previous context if relevant.\<newline>'')\<rparr>];
                   body = (\<lambda>model. \<lparr>p_model = model, p_messages = shared, p_temperature = 0,
                                      p_max_tokens = 500, p_format = None\<rparr>)
               in (\<forall>i<length competitors.
                     \<exists>raw. reply E (body (competitors ! i)) = Inr raw \<and> answers ! i = py_strip raw)
                  \<and> sent w' = sent w @ map body competitors))
     \<and> (\<forall>order. generate_competitor_answers R (E\<lparr>finish_order := order\<rparr>) question conversation w
                   = (Inr (competitors, answers, latency), w'))"
proof -
  from assms obtain ctx where ctx: "build_context_block R conversation = Inr ctx"
    by (auto simp: generate_competitor_answers_eq split: sum.splits)
  define msgs where "msgs = user_message (competitor_prompt ctx question)"
  define rs where "rs = map (\<lambda>m. chat_outcome E (chat_request m msgs 0 None)) COMPETITOR_MODELS"
  from assms ctx have g: "gather (finish_order E) rs = Inr answers"
    and c: "competitors = COMPETITOR_MODELS"
    and l: "latency = float_sub (clock E (ticks w + 1)) (clock E (ticks w))"
    and w': "w' = w\<lparr>sent := sent w @ map (\<lambda>m. chat_request m msgs 0 None) COMPETITOR_MODELS,
                     ticks := ticks w + 2\<rparr>"
    by (auto simp: generate_competitor_answers_eq Let_def rs_def msgs_def split: sum.splits)
  from g have rs: "rs = map Inr answers" by (simp add: gather_Inr_iff)
  then have len: "length answers = length COMPETITOR_MODELS"
    by (metis length_map rs_def)
  have nth: "\<exists>raw. reply E (chat_request (COMPETITOR_MODELS ! i) msgs 0 None) = Inr raw
                \<and> answers ! i = py_strip raw"
    if "i < length COMPETITOR_MODELS" for i
  proof -
    from that have "rs ! i = chat_outcome E (chat_request (COMPETITOR_MODELS ! i) msgs 0 None)"
      by (simp add: rs_def)
    moreover from that len rs have "rs ! i = Inr (answers ! i)" by simp
    ultimately have "chat_outcome E (chat_request (COMPETITOR_MODELS ! i) msgs 0 None)
        = Inr (answers ! i)" by simp
    then show ?thesis by (simp only: chat_outcome_Inr_iff)
  qed
  have any: "generate_competitor_answers R (E\<lparr>finish_order := order\<rparr>) question conversation w
                   = (Inr (competitors, answers, latency), w')" for order
  proof -
    have "gather order rs = Inr answers" using rs by (simp add: gather_Inr_iff)
    then show ?thesis
      using ctx c l w' by (simp add: generate_competitor_answers_eq Let_def rs_def msgs_def)
  qed
  define shared where
    "shared =
       [\<lparr>msg_role = ''user'',
         msg_content =
           py_strip
             (''\<newline>'' @ ctx @ ''\<newline>\<newline>Current Question:\<newline>'' @ question
              @ ''\<newline>\<newline>Provide your best possible answer considering the previous context if relevant.\<newline>'')\<rparr>]"
  define body where
    "body = (\<lambda>model. \<lparr>p_model = model, p_messages = shared, p_temperature = 0,
                       p_max_tokens = 500, p_format = None\<rparr>)"
  have request: "chat_request m msgs 0 None = body m" for m
    by (simp add: chat_request_def msgs_def user_message_def competitor_prompt_def body_def
          shared_def)
  have models: "competitors = [''mistral:latest'', ''gemma3:1b'', ''llama3.2'']"
    using c by (simp add: COMPETITOR_MODELS_def)
  have lens: "length answers = length competitors"
    using len c by simp
  have each: "\<forall>i<length competitors.
      \<exists>raw. reply E (body (competitors ! i)) = Inr raw \<and> answers ! i = py_strip raw"
    using nth c by (simp add: request)
  have posted: "sent w' = sent w @ map body competitors"
    using w' c by (simp add: request)
  from models lens ctx each posted any show ?thesis
    unfolding Let_def body_def shared_def by blast
qed

text \<open>On a one-turn history, with replies that carry white space and calls that complete in
  the order 2, 0, 1: the three bodies posted and the answers, in request order.\<close>

theorem C2_fan_out_alignment_witness:
  "\<exists>latency w'.
      generate_competitor_answers demo_runtime padded_env ''Why?''
          [[(''question'', PStr ''Q1''), (''answers'', PList [PStr ''A1'']), (''ranking'', PList [PInt 1])]]
          demo_world
        = (Inr ([''mistral:latest'', ''gemma3:1b'', ''llama3.2''],
                [''mistral:latest says hi'', ''gemma3:1b says hi'', ''llama3.2 says hi''],
                latency), w')
      \<and> finish_order padded_env = [2, 0, 1]
      \<and> sent w'
          = map (\<lambda>model.
               \<lparr>p_model = model,
                 p_messages =
                   [\<lparr>msg_role = ''user'',
                     msg_content = ''Previous Conversation Context:\<newline>\<newline>Turn 1:\<newline>Question: Q1\<newline>Competitor 1: A1\<newline>Ranking: [1]\<newline>\<newline>\<newline>\<newline>Current Question:\<newline>Why?\<newline>\<newline>Provide your best possible answer considering the previous context if relevant.''\<rparr>],
                 p_temperature = 0, p_max_tokens = 500, p_format = None\<rparr>)
              [''mistral:latest'', ''gemma3:1b'', ''llama3.2'']
      \<and> (\<forall>order. generate_competitor_answers demo_runtime (padded_env\<lparr>finish_order := order\<rparr>) ''Why?''
          [[(''question'', PStr ''Q1''), (''answers'', PList [PStr ''A1'']), (''ranking'', PList [PInt 1])]]
          demo_world
        = (Inr ([''mistral:latest'', ''gemma3:1b'', ''llama3.2''],
                [''mistral:latest says hi'', ''gemma3:1b says hi'', ''llama3.2 says hi''],
                latency), w'))"
proof -
  let ?turns = "[[(''question'', PStr ''Q1''), (''answers'', PList [PStr ''A1'']),
                  (''ranking'', PList [PInt 1])]] :: string turn list"
  let ?block = "''Previous Conversation Context:\<newline>\<newline>Turn 1:\<newline>Question: Q1\<newline>Competitor 1: A1\<newline>Ranking: [1]\<newline>\<newline>''"
  have ctx: "build_context_block demo_runtime ?turns = Inr ?block"
    by (rule example_block)
  have out: "chat_outcome padded_env (chat_request m msgs 0 None)
      = Inr (py_strip (''  '' @ m @ '' says hi\<newline>''))" for m msgs
    by (simp add: chat_outcome_def padded_env_def chat_request_def)
  have "gather (finish_order padded_env)
          (map (\<lambda>m. chat_outcome padded_env
                  (chat_request m (user_message (competitor_prompt ?block ''Why?'')) 0 None))
             COMPETITOR_MODELS)
        = Inr [''mistral:latest says hi'', ''gemma3:1b says hi'', ''llama3.2 says hi'']"
    by (simp add: gather_Inr_iff out COMPETITOR_MODELS_def py_strip_padded)
  then obtain latency w' where run:
    "generate_competitor_answers demo_runtime padded_env ''Why?'' ?turns demo_world
        = (Inr ([''mistral:latest'', ''gemma3:1b'', ''llama3.2''],
                [''mistral:latest says hi'', ''gemma3:1b says hi'', ''llama3.2 says hi''],
                latency), w')"
    by (simp add: generate_competitor_answers_eq ctx Let_def COMPETITOR_MODELS_def)
  from C2_fan_out_alignment [OF run]
  have sent: "sent w'
          = sent demo_world @ map (\<lambda>model.
               \<lparr>p_model = model,
                 p_messages =
                   [\<lparr>msg_role = ''user'',
                     msg_content =
                       py_strip (''\<newline>'' @ ?block @ ''\<newline>\<newline>Current Question:\<newline>'' @ ''Why?''
                         @ ''\<newline>\<newline>Provide your best possible answer considering the previous context if relevant.\<newline>'')\<rparr>],
                 p_temperature = 0, p_max_tokens = 500, p_format = None\<rparr>)
              [''mistral:latest'', ''gemma3:1b'', ''llama3.2'']"
    and any: "\<forall>order. generate_competitor_answers demo_runtime (padded_env\<lparr>finish_order := order\<rparr>) ''Why?''
          ?turns demo_world
        = (Inr ([''mistral:latest'', ''gemma3:1b'', ''llama3.2''],
                [''mistral:latest says hi'', ''gemma3:1b says hi'', ''llama3.2 says hi''],
                latency), w')"
    unfolding Let_def ctx by (simp_all only: sum.inject simp_thms ex_simps)
  have "finish_order padded_env = [2, 0, 1]"
    by (simp add: padded_env_def demo_env_def)
  with run sent any show ?thesis
    by (simp only: example_prompt) (simp add: demo_world_def)
qed

text \<open>\<^bold>\<open>C3.\<close> A run in which a backend call fails returns that exception and nothing else
  (the result is the exception alone: no response, hence no partial result and no
  updated conversation). Stage by stage: the question call fails; the question call
  succeeds, the context is built and a competitor call fails (the run fails with the
  exception of a failed competitor call, which is that call's when it is the only one
  to fail); the question and all competitor calls succeed and the judge call fails.\<close>

theorem C3_backend_failure_aborts:
  "(chat_outcome E (chat_request QUESTION_MODEL build_initial_messages 0 None) = Inl e
      \<longrightarrow> fst (run_orchestration R E request w) = Inl e)
   \<and> (chat_outcome E (chat_request QUESTION_MODEL build_initial_messages 0 None) = Inr question
      \<and> build_context_block R (conversation_window (req_conversation request)) = Inr ctx
      \<and> model \<in> set COMPETITOR_MODELS
      \<and> chat_outcome E (chat_request model (user_message (competitor_prompt ctx question)) 0 None) = Inl e
      \<longrightarrow> (\<exists>e' model'.
             model' \<in> set COMPETITOR_MODELS
             \<and> chat_outcome E (chat_request model' (user_message (competitor_prompt ctx question)) 0 None) = Inl e'
             \<and> fst (run_orchestration R E request w) = Inl e')
          \<and> ((\<forall>m\<in>set COMPETITOR_MODELS. m \<noteq> model \<longrightarrow>
                 (\<exists>a. chat_outcome E (chat_request m (user_message (competitor_prompt ctx question)) 0 None) = Inr a))
               \<longrightarrow> fst (run_orchestration R E request w) = Inl e))
   \<and> (chat_outcome E (chat_request QUESTION_MODEL build_initial_messages 0 None) = Inr question
      \<and> build_context_block R (conversation_window (req_conversation request)) = Inr ctx
      \<and> map (\<lambda>m. chat_outcome E (chat_request m (user_message (competitor_prompt ctx question)) 0 None))
            COMPETITOR_MODELS = map Inr answers
      \<and> build_judge_prompt R question answers (conversation_window (req_conversation request)) = Inr prompt
      \<and> chat_outcome E (chat_request JUDGE_MODEL (judge_messages prompt) 0 (Some ''json'')) = Inl e
      \<longrightarrow> fst (run_orchestration R E request w) = Inl e)"
proof (intro conjI impI)
  assume "chat_outcome E (chat_request QUESTION_MODEL build_initial_messages 0 None) = Inl e"
  then show "fst (run_orchestration R E request w) = Inl e"
    by (simp add: run_orchestration_def time_time_def generate_question_eq Let_def)
next
  assume a: "chat_outcome E (chat_request QUESTION_MODEL build_initial_messages 0 None) = Inr question
      \<and> build_context_block R (conversation_window (req_conversation request)) = Inr ctx
      \<and> model \<in> set COMPETITOR_MODELS
      \<and> chat_outcome E (chat_request model (user_message (competitor_prompt ctx question)) 0 None) = Inl e"
  define rs where "rs = map (\<lambda>m. chat_outcome E (chat_request m (user_message (competitor_prompt ctx question)) 0 None)) COMPETITOR_MODELS"
  from a have bad: "Inl e \<in> set rs" by (force simp: rs_def)
  have "\<not> (\<exists>xs. rs = map Inr xs)" using bad by auto
  with gather_cases [of "finish_order E" rs]
  obtain e' where g: "gather (finish_order E) rs = Inl e'" and mem: "Inl e' \<in> set rs"
    by blast
  have run: "fst (run_orchestration R E request w) = Inl e'"
    using a g by (simp add: run_orchestration_def time_time_def generate_question_eq
        generate_competitor_answers_eq Let_def rs_def)
  from mem obtain model' where m': "model' \<in> set COMPETITOR_MODELS"
     "chat_outcome E (chat_request model' (user_message (competitor_prompt ctx question)) 0 None) = Inl e'"
    by (auto simp: rs_def)
  with run show "\<exists>e' model'.
             model' \<in> set COMPETITOR_MODELS
             \<and> chat_outcome E (chat_request model' (user_message (competitor_prompt ctx question)) 0 None) = Inl e'
             \<and> fst (run_orchestration R E request w) = Inl e'"
    by blast
  assume others: "\<forall>m\<in>set COMPETITOR_MODELS. m \<noteq> model \<longrightarrow>
                 (\<exists>a. chat_outcome E (chat_request m (user_message (competitor_prompt ctx question)) 0 None) = Inr a)"
  have "model' = model"
  proof (rule ccontr)
    assume "model' \<noteq> model"
    with others m'(1) obtain a' where
      "chat_outcome E (chat_request model' (user_message (competitor_prompt ctx question)) 0 None) = Inr a'"
      by blast
    with m'(2) show False by simp
  qed
  with m'(2) a have "e' = e" by simp
  with run show "fst (run_orchestration R E request w) = Inl e" by simp
next
  assume a: "chat_outcome E (chat_request QUESTION_MODEL build_initial_messages 0 None) = Inr question
      \<and> build_context_block R (conversation_window (req_conversation request)) = Inr ctx
      \<and> map (\<lambda>m. chat_outcome E (chat_request m (user_message (competitor_prompt ctx question)) 0 None))
            COMPETITOR_MODELS = map Inr answers
      \<and> build_judge_prompt R question answers (conversation_window (req_conversation request)) = Inr prompt
      \<and> chat_outcome E (chat_request JUDGE_MODEL (judge_messages prompt) 0 (Some ''json'')) = Inl e"
  then have "gather (finish_order E)
      (map (\<lambda>m. chat_outcome E (chat_request m (user_message (competitor_prompt ctx question)) 0 None))
            COMPETITOR_MODELS) = Inr answers"
    by (simp add: gather_Inr_iff)
  with a show "fst (run_orchestration R E request w) = Inl e"
    by (simp add: run_orchestration_def time_time_def generate_question_eq
        generate_competitor_answers_eq judge_answers_eq Let_def)
qed

text \<open>Three backends: one that refuses every call, one whose second competitor is down,
  one whose judge is down.\<close>

theorem C3_backend_failure_aborts_witness:
  "fst (run_orchestration demo_runtime question_down_env demo_request demo_world)
     = Inl (BackendUnavailable ''connection refused'')
   \<and> fst (run_orchestration demo_runtime competitor_down_env demo_request demo_world)
     = Inl (BackendUnavailable ''connection refused'')
   \<and> fst (run_orchestration demo_runtime judge_down_env demo_request demo_world)
     = Inl (BackendUnavailable ''status 500'')"
proof (intro conjI)
  have "chat_outcome question_down_env (chat_request QUESTION_MODEL build_initial_messages 0 None)
          = Inl (BackendUnavailable ''connection refused'')"
    by (simp add: chat_outcome_def question_down_env_def)
  with C3_backend_failure_aborts [of question_down_env "BackendUnavailable ''connection refused''"
      demo_runtime demo_request demo_world]
  show "fst (run_orchestration demo_runtime question_down_env demo_request demo_world)
     = Inl (BackendUnavailable ''connection refused'')"
    by blast
next
  define ctx where "ctx = spec_context_text demo_runtime (conversation_window (req_conversation demo_request))"
  have q: "chat_outcome competitor_down_env (chat_request QUESTION_MODEL build_initial_messages 0 None)
          = Inr ''answer of llama3.2''"
    by (simp add: chat_outcome_def competitor_down_env_def demo_env_def chat_request_def QUESTION_MODEL_def
        py_strip_plain)
  have c: "build_context_block demo_runtime (conversation_window (req_conversation demo_request)) = Inr ctx"
    by (simp add: ctx_def demo_window_block)
  have m: "''gemma3:1b'' \<in> set COMPETITOR_MODELS"
    by (simp add: COMPETITOR_MODELS_def)
  have f: "chat_outcome competitor_down_env
             (chat_request ''gemma3:1b'' (user_message (competitor_prompt ctx ''answer of llama3.2'')) 0 None)
           = Inl (BackendUnavailable ''connection refused'')"
    by (simp add: chat_outcome_def competitor_down_env_def chat_request_def)
  have o: "\<forall>m\<in>set COMPETITOR_MODELS. m \<noteq> ''gemma3:1b'' \<longrightarrow>
             (\<exists>a. chat_outcome competitor_down_env
                     (chat_request m (user_message (competitor_prompt ctx ''answer of llama3.2'')) 0 None) = Inr a)"
    by (simp add: chat_outcome_def competitor_down_env_def demo_env_def chat_request_def COMPETITOR_MODELS_def)
  from C3_backend_failure_aborts [of competitor_down_env "BackendUnavailable ''connection refused''"
      demo_runtime demo_request demo_world "''answer of llama3.2''" ctx "''gemma3:1b''"] q c m f o
  show "fst (run_orchestration demo_runtime competitor_down_env demo_request demo_world)
     = Inl (BackendUnavailable ''connection refused'')"
    by blast
next
  define ctx where "ctx = spec_context_text demo_runtime (conversation_window (req_conversation demo_request))"
  define answers where "answers = [''answer of mistral:latest'', ''answer of gemma3:1b'', ''answer of llama3.2'']"
  have q: "chat_outcome judge_down_env (chat_request QUESTION_MODEL build_initial_messages 0 None)
          = Inr ''answer of llama3.2''"
    by (simp add: chat_outcome_def judge_down_env_def demo_env_def chat_request_def QUESTION_MODEL_def
        py_strip_plain)
  have c: "build_context_block demo_runtime (conversation_window (req_conversation demo_request)) = Inr ctx"
    by (simp add: ctx_def demo_window_block)
  have a: "map (\<lambda>m. chat_outcome judge_down_env
                  (chat_request m (user_message (competitor_prompt ctx ''answer of llama3.2'')) 0 None))
            COMPETITOR_MODELS = map Inr answers"
    by (simp add: chat_outcome_def judge_down_env_def demo_env_def chat_request_def COMPETITOR_MODELS_def
        answers_def py_strip_plain)
  obtain prompt where p: "build_judge_prompt demo_runtime ''answer of llama3.2'' answers
      (conversation_window (req_conversation demo_request)) = Inr prompt"
    using build_judge_prompt_Inr [OF c] by blast
  have j: "chat_outcome judge_down_env (chat_request JUDGE_MODEL (judge_messages prompt) 0 (Some ''json''))
          = Inl (BackendUnavailable ''status 500'')"
    by (simp add: chat_outcome_def judge_down_env_def chat_request_def)
  from C3_backend_failure_aborts [of judge_down_env "BackendUnavailable ''status 500''"
      demo_runtime demo_request demo_world "''answer of llama3.2''" ctx _ answers prompt] q c a p j
  show "fst (run_orchestration demo_runtime judge_down_env demo_request demo_world)
     = Inl (BackendUnavailable ''status 500'')"
    by blast
qed

text \<open>\<^bold>\<open>C4.\<close> A history \<open>H\<close> of more than five turns is cut to exactly its five most recent
  turns, the older ones dropped; a history of at most five turns is kept whole. The cut
  comes before every stage: a run on \<open>H\<close> is the run on the window of \<open>H\<close>.\<close>

theorem C4_window_keeps_last_five:
  "(5 < length H \<longrightarrow>
      conversation_window (Some H) = drop (length H - 5) H
      \<and> length (conversation_window (Some H)) = 5
      \<and> take (length H - 5) H @ conversation_window (Some H) = H)
   \<and> (length H \<le> 5 \<longrightarrow> conversation_window (Some H) = H)
   \<and> run_orchestration R E (request\<lparr>req_conversation := Some H\<rparr>) w
       = run_orchestration R E (request\<lparr>req_conversation := Some (conversation_window (Some H))\<rparr>) w"
proof -
  have "run_orchestration R E (request\<lparr>req_conversation := Some H\<rparr>) w
       = run_orchestration R E (request\<lparr>req_conversation := Some (conversation_window (Some H))\<rparr>) w"
    by (simp add: run_orchestration_def conversation_window_idem)
  then show ?thesis
    by (simp add: conversation_window_Some)
qed

text \<open>The six-turn history: the first turn is dropped.\<close>

theorem C4_window_keeps_last_five_witness:
  "5 < length demo_history
   \<and> conversation_window (Some demo_history)
       = [demo_turn ''Q2'', demo_turn ''Q3'', demo_turn ''Q4'', demo_turn ''Q5'', demo_turn ''Q6'']
   \<and> length (conversation_window (Some demo_history)) = 5"
  using C4_window_keeps_last_five [of demo_history demo_runtime demo_env demo_request demo_world]
  by (simp add: demo_history_def)

text \<open>\<^bold>\<open>C5.\<close> The conversation a successful run returns is the last five turns of the input
  history \<open>H\<close> (all of \<open>H\<close> when it has five turns or fewer, nothing when there is none),
  unchanged and in order, followed by one new turn: the dictionary with the key
  \<^verbatim>\<open>question\<close> for the question of the response, \<^verbatim>\<open>answers\<close> for the list of its answers and
  \<^verbatim>\<open>ranking\<close> for its ranking. Its length is \<open>min (len H) 5 + 1\<close>, which is 6 for a history of
  five turns or more.\<close>

theorem C5_returned_conversation:
  assumes "run_orchestration R E request w = (Inr res, w')"
  shows "(let H = (case req_conversation request of None \<Rightarrow> [] | Some turns \<Rightarrow> turns)
          in res_conversation res
               = drop (length H - 5) H
                   @ [[(''question'', PStr (res_question res)),
                       (''answers'', PList (map PStr (res_answers res))),
                       (''ranking'', PList (res_ranking res))]]
             \<and> length (res_conversation res) = min (length H) 5 + 1)"
proof -
  from run_orchestration_Inr [OF assms]
  have c: "res_conversation res
           = conversation_window (req_conversation request)
               @ [new_turn (res_question res) (res_answers res) (res_ranking res)]"
    by auto
  show ?thesis
  proof (cases "req_conversation request")
    case None
    with c show ?thesis by (simp add: conversation_window_None new_turn_def)
  next
    case (Some H)
    with c show ?thesis by (auto simp: conversation_window_Some new_turn_def Let_def)
  qed
qed

text \<open>The run on the six-turn history \<^verbatim>\<open>Q1\<close> to \<^verbatim>\<open>Q6\<close> returns the turns \<^verbatim>\<open>Q2\<close> to \<^verbatim>\<open>Q6\<close> and the
  new turn: six turns.\<close>

theorem C5_returned_conversation_witness:
  "\<exists>res w'. run_orchestration demo_runtime demo_env demo_request demo_world = (Inr res, w')
      \<and> req_conversation demo_request
          = Some [demo_turn ''Q1'', demo_turn ''Q2'', demo_turn ''Q3'', demo_turn ''Q4'',
                  demo_turn ''Q5'', demo_turn ''Q6'']
      \<and> res_conversation res
          = [demo_turn ''Q2'', demo_turn ''Q3'', demo_turn ''Q4'', demo_turn ''Q5'', demo_turn ''Q6'',
             [(''question'', PStr ''answer of llama3.2''),
              (''answers'', PList [PStr ''answer of mistral:latest'', PStr ''answer of gemma3:1b'',
                                   PStr ''answer of llama3.2'']),
              (''ranking'', PList [PInt 3, PInt 1, PInt 2])]]
      \<and> length (res_conversation res) = 6"
proof -
  have "demo_request = demo_request\<lparr>req_conversation := Some demo_history\<rparr>"
    by (simp add: demo_request_def)
  with demo_run_succeeds [OF demo_history_iterable, of demo_runtime demo_request demo_world]
  obtain res w' where run: "run_orchestration demo_runtime demo_env demo_request demo_world = (Inr res, w')"
    by auto
  have H: "req_conversation demo_request = Some demo_history"
    by (simp add: demo_request_def)
  from C5_returned_conversation [OF run]
  have "res_conversation res
          = drop (length demo_history - 5) demo_history
              @ [[(''question'', PStr (res_question res)),
                  (''answers'', PList (map PStr (res_answers res))),
                  (''ranking'', PList (res_ranking res))]]"
    and "length (res_conversation res) = min (length demo_history) 5 + 1"
    by (simp_all add: H Let_def)
  then have "res_conversation res
          = [demo_turn ''Q2'', demo_turn ''Q3'', demo_turn ''Q4'', demo_turn ''Q5'', demo_turn ''Q6'',
             [(''question'', PStr ''answer of llama3.2''),
              (''answers'', PList [PStr ''answer of mistral:latest'', PStr ''answer of gemma3:1b'',
                                   PStr ''answer of llama3.2'']),
              (''ranking'', PList [PInt 3, PInt 1, PInt 2])]]"
    and "length (res_conversation res) = 6"
    by (simp_all add: demo_window demo_run_fields [OF run] demo_history_def)
  with run H show ?thesis by (simp add: demo_history_def)
qed

text \<open>\<^bold>\<open>C6.\<close> The context builder is a function of the history alone. It returns the empty
  text for the empty history. For a history whose turns hold answers that can be
  enumerated it returns the text of the specification: the heading, then for each turn
  in order \<^verbatim>\<open>Turn N:\<close> counted from 1, the question, each answer as \<^verbatim>\<open>Competitor i: <answer>\<close>
  by position counted from 1, the ranking when there is one (the code tests its truth
  value: a ranking that is not empty), and a blank line. On the one turn with question
  \<^verbatim>\<open>Q1\<close>, answer \<^verbatim>\<open>A1\<close> and ranking \<^verbatim>\<open>[1]\<close> the text contains \<^verbatim>\<open>Turn 1:\<close>, \<^verbatim>\<open>Question: Q1\<close>,
  \<^verbatim>\<open>Competitor 1: A1\<close> and \<^verbatim>\<open>Ranking: [1]\<close>.\<close>

theorem C6_context_builder:
  \<open>build_context_block R [] = Inr ''''
   \<and> (list_all answers_iterable conversation
        \<longrightarrow> build_context_block R conversation = Inr (spec_context_text R conversation))
   \<and> (\<exists>block.
         build_context_block R
           [[(''question'', PStr ''Q1''), (''answers'', PList [PStr ''A1'']),
             (''ranking'', PList [PInt 1])]] = Inr block
         \<and> sublist ''Turn 1:'' block \<and> sublist ''Question: Q1'' block
         \<and> sublist ''Competitor 1: A1'' block \<and> sublist ''Ranking: [1]'' block)\<close>
proof -
  have "build_context_block R [] = Inr ''''"
    by (simp add: build_context_block_def)
  moreover have "list_all answers_iterable conversation
        \<longrightarrow> build_context_block R conversation = Inr (spec_context_text R conversation)"
    by (simp add: build_context_block_eq)
  ultimately show ?thesis
    using example_block [of R] example_sublists by blast
qed

text \<open>The six-turn history satisfies the hypothesis.\<close>

theorem C6_context_builder_witness:
  "list_all answers_iterable demo_history
   \<and> build_context_block demo_runtime demo_history = Inr (spec_context_text demo_runtime demo_history)
   \<and> build_context_block demo_runtime ([] :: string turn list) = Inr ''''"
  using C6_context_builder [of demo_runtime demo_history] demo_history_iterable
  by blast

text \<open>\<^bold>\<open>C7.\<close> The claim is that every ranking returned is a sequence of integers. The code
  tests only that \<^verbatim>\<open>results\<close> is a list: on the reply \<^verbatim>\<open>{"results": ["first", null]}\<close> the
  ranking is \<^verbatim>\<open>['first', None]\<close>, though \<^verbatim>\<open>judge_answers\<close> is annotated to return a
  \<^verbatim>\<open>List[int]\<close> and the response and storage schemas declare \<^verbatim>\<open>ranking: List[int]\<close>.\<close>

theorem C7_ranking_elements_unchecked:
  \<open>parse_ranking R ''{"results": ["first", null]}'' = [PStr ''first'', PNone]
   \<and> \<not> list_all json_integer (parse_ranking R ''{"results": ["first", null]}'')\<close>
  by (simp add: parse_example_5 json_integer_def)

text \<open>The same reply under the concrete runtime.\<close>

theorem C7_ranking_elements_unchecked_witness:
  \<open>parse_ranking demo_runtime ''{"results": ["first", null]}'' = [PStr ''first'', PNone]\<close>
  using C7_ranking_elements_unchecked [of demo_runtime] by blast

text \<open>\<^bold>\<open>C8\<close>, as amended. Each of the four reported fields is a difference of two clock
  readings, rounded to three decimals on its own, so the reported stage times can sum to
  more than the reported total. What holds for a run whose clock readings do not
  decrease and lie between 0 and \<open>2\<^sup>3\<^sup>2\<close> seconds: the reported total is at least the sum of
  the three reported stage times less 0.00201. The 0.002 is the four decimal roundings;
  the rest covers the eight roundings to a double, of the four differences and of the
  four decimals.\<close>

theorem C8_rounded_sum_bound:
  assumes "run_orchestration R E request w = (Inr res, w')"
    and "\<forall>k<7. clock E (ticks w + k) \<le> clock E (ticks w + k + 1)"
    and "0 \<le> clock E (ticks w)"
    and "clock E (ticks w + 7) \<le> 2 ^ 32"
  shows "question_generation_sec (res_latency res) + competitor_generation_sec (res_latency res)
           + judge_sec (res_latency res) - 201 / 100000
         \<le> total_sec (res_latency res)"
proof -
  define t where "t k = clock E (ticks w + k)" for k
  from run_orchestration_Inr [OF assms(1)]
  have lat: "question_generation_sec (res_latency res) = py_round (float_sub (t 2) (t 1)) 3"
    "competitor_generation_sec (res_latency res) = py_round (float_sub (t 4) (t 3)) 3"
    "judge_sec (res_latency res) = py_round (float_sub (t 6) (t 5)) 3"
    "total_sec (res_latency res) = py_round (float_sub (t 7) (t 0)) 3"
    by (auto simp: t_def)
  have step: "t k \<le> t (k + 1)" if "k < 7" for k
    using assms(2) that by (simp add: t_def)
  have chain: "t 0 \<le> t 1" "t 1 \<le> t 2" "t 2 \<le> t 3" "t 3 \<le> t 4" "t 4 \<le> t 5" "t 5 \<le> t 6"
    "t 6 \<le> t 7"
    using step [of 0] step [of 1] step [of 2] step [of 3] step [of 4] step [of 5] step [of 6]
    by (simp_all add: eval_nat_numeral)
  have lo: "0 \<le> t 0" and hi: "t 7 \<le> 2 ^ 32"
    using assms(3,4) by (simp_all add: t_def)
  have range: "0 \<le> t 1" "t 2 \<le> 2 ^ 32" "0 \<le> t 3" "t 4 \<le> 2 ^ 32" "0 \<le> t 5" "t 6 \<le> 2 ^ 32"
    using chain lo hi by linarith+
  have eps: "1 / 2000 + 2 / (2::rat) ^ 20 = 1 / 2000 + 1 / 524288" by simp
  have q: "\<bar>py_round (float_sub (t 2) (t 1)) 3 - (t 2 - t 1)\<bar> \<le> 1 / 2000 + 1 / 524288"
    using reported_duration_error [OF range(1) chain(2) range(2)] by (simp only: eps)
  have c: "\<bar>py_round (float_sub (t 4) (t 3)) 3 - (t 4 - t 3)\<bar> \<le> 1 / 2000 + 1 / 524288"
    using reported_duration_error [OF range(3) chain(4) range(4)] by (simp only: eps)
  have j: "\<bar>py_round (float_sub (t 6) (t 5)) 3 - (t 6 - t 5)\<bar> \<le> 1 / 2000 + 1 / 524288"
    using reported_duration_error [OF range(5) chain(6) range(6)] by (simp only: eps)
  have total: "\<bar>py_round (float_sub (t 7) (t 0)) 3 - (t 7 - t 0)\<bar> \<le> 1 / 2000 + 1 / 524288"
  proof -
    have "t 0 \<le> t 7" using chain by linarith
    from reported_duration_error [OF lo this hi] show ?thesis by (simp only: eps)
  qed
  have exact: "(t 2 - t 1) + (t 4 - t 3) + (t 6 - t 5) \<le> t 7 - t 0"
    using chain by linarith
  from q c j total exact show ?thesis unfolding lat by linarith
qed

text \<open>The run on the six-turn history: its clock does not decrease and reads about
  1700000000.\<close>

theorem C8_rounded_sum_bound_witness:
  "\<exists>res w'. run_orchestration demo_runtime demo_env demo_request demo_world = (Inr res, w')
     \<and> (\<forall>k<7. clock demo_env (ticks demo_world + k) \<le> clock demo_env (ticks demo_world + k + 1))
     \<and> 0 \<le> clock demo_env (ticks demo_world)
     \<and> clock demo_env (ticks demo_world + 7) \<le> 2 ^ 32
     \<and> question_generation_sec (res_latency res) + competitor_generation_sec (res_latency res)
           + judge_sec (res_latency res) - 201 / 100000
         \<le> total_sec (res_latency res)"
proof -
  have "demo_request = demo_request\<lparr>req_conversation := Some demo_history\<rparr>"
    by (simp add: demo_request_def)
  with demo_run_succeeds [OF demo_history_iterable, of demo_runtime demo_request demo_world]
  obtain res w' where run: "run_orchestration demo_runtime demo_env demo_request demo_world = (Inr res, w')"
    by auto
  have mono: "\<forall>k<7. clock demo_env (ticks demo_world + k) \<le> clock demo_env (ticks demo_world + k + 1)"
    using demo_clock_monotone by blast
  have lo: "0 \<le> clock demo_env (ticks demo_world)"
    by (simp add: demo_env_def demo_world_def)
  have hi: "clock demo_env (ticks demo_world + 7) \<le> 2 ^ 32"
    by (simp add: demo_env_def demo_world_def)
  from C8_rounded_sum_bound [OF run mono lo hi] run mono lo hi show ?thesis by blast
qed

text \<open>\<^bold>\<open>C8\<close> as stated fails. The clock reads 1700000000 at the start, each reading comes
  \<open>2 powi (- 20)\<close> s after the one before and each stage takes a further 4099/4096 s; the eight
  readings are doubles. Every stage lasts 1049345/1048576 s, about 1.000733, and is
  reported as the double nearest to 1.001; the run lasts 3148039/1048576 s, about
  3.002204, and its total is reported as the double nearest to 3.002, less than the sum
  of the three stage times.\<close>

theorem C8_rounded_sum_exceeds_total:
  "ticks demo_world = 0
   \<and> list_all (\<lambda>k. to_double (clock demo_env k) = clock demo_env k) [0..<8]
   \<and> (case fst (run_orchestration demo_runtime demo_env demo_request demo_world) of
      Inl e \<Rightarrow> False
    | Inr res \<Rightarrow>
        res_latency res
          = \<lparr>question_generation_sec = 2254051613498933 / 2251799813685248,
             competitor_generation_sec = 2254051613498933 / 2251799813685248,
             judge_sec = 2254051613498933 / 2251799813685248,
             total_sec = 3379951520341557 / 1125899906842624\<rparr>
        \<and> \<not> (question_generation_sec (res_latency res) + competitor_generation_sec (res_latency res)
               + judge_sec (res_latency res)
             \<le> total_sec (res_latency res)))"
proof -
  have "demo_request = demo_request\<lparr>req_conversation := Some demo_history\<rparr>"
    by (simp add: demo_request_def)
  with demo_run_succeeds [OF demo_history_iterable, of demo_runtime demo_request demo_world]
  obtain res w' where run: "run_orchestration demo_runtime demo_env demo_request demo_world = (Inr res, w')"
    by auto
  from run_orchestration_Inr [OF run]
  have "res_latency res
          = \<lparr>question_generation_sec =
               py_round (float_sub (clock demo_env (ticks demo_world + 2))
                           (clock demo_env (ticks demo_world + 1))) 3,
             competitor_generation_sec =
               py_round (float_sub (clock demo_env (ticks demo_world + 4))
                           (clock demo_env (ticks demo_world + 3))) 3,
             judge_sec =
               py_round (float_sub (clock demo_env (ticks demo_world + 6))
                           (clock demo_env (ticks demo_world + 5))) 3,
             total_sec =
               py_round (float_sub (clock demo_env (ticks demo_world + 7))
                           (clock demo_env (ticks demo_world))) 3\<rparr>"
    by auto
  then have "res_latency res
          = \<lparr>question_generation_sec = 2254051613498933 / 2251799813685248,
             competitor_generation_sec = 2254051613498933 / 2251799813685248,
             judge_sec = 2254051613498933 / 2251799813685248,
             total_sec = 3379951520341557 / 1125899906842624\<rparr>"
    by (simp only: demo_float_durations demo_round_values)
  moreover have "ticks demo_world = 0" by (simp add: demo_world_def)
  ultimately show ?thesis using run demo_clock_doubles by simp
qed

text \<open>\<^bold>\<open>C9.\<close> Two requests with the same conversation field have the same run, for every
  backend: the same result and the same world afterwards, so the same request bodies
  posted in the same order. Every body posted carries the temperature \<open>0\<close>, and a
  successful run reports the static list of three competitor models whatever
  \<^verbatim>\<open>num_competitors\<close> asked for.\<close>

theorem C9_only_the_conversation_is_read:
  assumes "req_conversation r1 = req_conversation r2"
  shows "run_orchestration R E r1 w = run_orchestration R E r2 w
     \<and> (\<exists>calls. sent (snd (run_orchestration R E r1 w)) = sent w @ calls
           \<and> list_all (\<lambda>p. p_temperature p = 0) calls)
     \<and> (\<forall>res w'. run_orchestration R E r1 w = (Inr res, w')
           \<longrightarrow> res_competitors res = COMPETITOR_MODELS \<and> length (res_answers res) = 3)"
proof -
  have same: "run_orchestration R E r1 w = run_orchestration R E r2 w"
    using assms by (simp add: run_orchestration_def)
  obtain calls where calls: "sent (snd (run_orchestration R E r1 w)) = sent w @ calls"
      "list_all (\<lambda>p. p_temperature p = 0 \<and> p_max_tokens p = 500) calls"
    using run_orchestration_sent by blast
  then have zero: "list_all (\<lambda>p. p_temperature p = 0) calls"
    by (simp add: list_all_iff)
  have static: "res_competitors res = COMPETITOR_MODELS \<and> length (res_answers res) = 3"
    if "run_orchestration R E r1 w = (Inr res, w')" for res w'
  proof -
    from run_orchestration_Inr [OF that] obtain question answers ranking ctx where
      m: "map (\<lambda>m. chat_outcome E (chat_request m (user_message (competitor_prompt ctx question)) 0 None))
               COMPETITOR_MODELS = map Inr answers"
      and r: "res_competitors res = COMPETITOR_MODELS" "res_answers res = answers"
      by auto
    from m have "length COMPETITOR_MODELS = length answers"
      by (metis length_map)
    with r show ?thesis by (simp add: COMPETITOR_MODELS_def)
  qed
  from same calls(1) zero static show ?thesis by blast
qed

text \<open>Two requests that differ in session, question, competitor count and temperature.\<close>

theorem C9_only_the_conversation_is_read_witness:
  "req_session_id demo_request \<noteq> req_session_id demo_request_other
   \<and> req_question demo_request \<noteq> req_question demo_request_other
   \<and> req_num_competitors demo_request \<noteq> req_num_competitors demo_request_other
   \<and> req_temperature demo_request \<noteq> req_temperature demo_request_other
   \<and> run_orchestration demo_runtime demo_env demo_request demo_world
       = run_orchestration demo_runtime demo_env demo_request_other demo_world"
  using C9_only_the_conversation_is_read [of demo_request demo_request_other demo_runtime demo_env demo_world]
  by (simp add: demo_request_def demo_request_other_def)

text \<open>\<^bold>\<open>C10.\<close> For a turn whose ranking is missing or the empty sequence, the block of the
  turn is the \<^verbatim>\<open>Turn\<close> line, the \<^verbatim>\<open>Question\<close> line, the answer lines and the blank line, with
  no \<^verbatim>\<open>Ranking:\<close> line; and the context of a history is the same when the key
  \<^verbatim>\<open>ranking\<close> is removed from such a turn.\<close>

theorem C10_empty_ranking_as_missing:
  assumes "map_of turn ''ranking'' = None \<or> map_of turn ''ranking'' = Some (PList [])"
  shows "turn_block R idx turn ctx =
           (case py_iter (dict_get turn ''answers'' (PList [])) of
              Inl e \<Rightarrow> Inl e
            | Inr items \<Rightarrow>
                Inr (answers_loop R 0 items
                       (ctx @ ''Turn '' @ show_nat (idx + 1) @ '':\<newline>''
                        @ ''Question: '' @ py_str R (dict_get turn ''question'' PNone) @ ''\<newline>'')
                     @ ''\<newline>''))
       \<and> build_context_block R (before @ turn # after)
           = build_context_block R (before @ filter (\<lambda>kv. fst kv \<noteq> ''ranking'') turn # after)"
proof -
  from assms have falsy: "\<not> py_truthy R (dict_get turn ''ranking'' PNone)"
    by (auto simp: dict_get_def)
  have block: "turn_block R i turn c =
           (case py_iter (dict_get turn ''answers'' (PList [])) of
              Inl e \<Rightarrow> Inl e
            | Inr items \<Rightarrow>
                Inr (answers_loop R 0 items
                       (c @ ''Turn '' @ show_nat (i + 1) @ '':\<newline>''
                        @ ''Question: '' @ py_str R (dict_get turn ''question'' PNone) @ ''\<newline>'')
                     @ ''\<newline>''))" for i c
    using falsy by (simp add: turn_block_def Let_def split: sum.splits)
  have same: "turn_block R i turn c = turn_block R i (filter (\<lambda>kv. fst kv \<noteq> ''ranking'') turn) c" for i c
    using falsy by (simp add: turn_block_def Let_def dict_get_without split: sum.splits)
  have "build_context_block R (before @ turn # after)
           = build_context_block R (before @ filter (\<lambda>kv. fst kv \<noteq> ''ranking'') turn # after)"
    using turns_loop_same_block [of R turn "filter (\<lambda>kv. fst kv \<noteq> ''ranking'') turn", OF same]
    by (simp add: build_context_block_def)
  with block show ?thesis by blast
qed

text \<open>The turn of a failed judge against the turn without a ranking.\<close>

theorem C10_empty_ranking_as_missing_witness:
  "build_context_block demo_runtime [new_turn ''Q1'' [''A1''] []]
     = build_context_block demo_runtime [[(''question'', PStr ''Q1''), (''answers'', PList [PStr ''A1''])]]"
  using C10_empty_ranking_as_missing [of "new_turn ''Q1'' [''A1''] []" demo_runtime 0 "[]" "[]" "[]"]
  by (simp add: new_turn_def)

end
